theory Spec2Isabelle
  imports Main
begin

section \<open>Python values and exceptions\<close>

text \<open>
  The web interface of maps4fs (\<^verbatim>\<open>webui/generator.py\<close>) is embedded as pure functions.
  A Python \<^verbatim>\<open>str\<close> is a list of code points; the model covers the code points below 256,
  one \<^typ>\<open>char\<close> each. Python's unbounded integers are \<^typ>\<open>int\<close>.

  An exception is a value: its class and the text of \<^verbatim>\<open>repr(e)\<close>. The classes are the ones
  the handlers of \<^verbatim>\<open>generate_map\<close> tell apart: \<^verbatim>\<open>JSONDecodeError\<close> is a subclass of
  \<^verbatim>\<open>ValueError\<close>, every class but \<open>BaseExceptionOnly\<close> is a subclass of \<^verbatim>\<open>Exception\<close>, and
  \<open>BaseExceptionOnly\<close> stands for the classes deriving from \<^verbatim>\<open>BaseException\<close> alone
  (\<^verbatim>\<open>KeyboardInterrupt\<close>, \<^verbatim>\<open>SystemExit\<close>), which \<^verbatim>\<open>except Exception\<close> lets through.
\<close>

datatype exc_class =
    ValueError | JSONDecodeError | KeyError | TypeError | AttributeError
  | UnboundLocalError | OtherException | BaseExceptionOnly

datatype py_exception = Exc (exc_cls: exc_class) (exc_repr: string)

definition is_ValueError :: "py_exception \<Rightarrow> bool" where
  "is_ValueError e = (exc_cls e = ValueError \<or> exc_cls e = JSONDecodeError)"

definition is_JSONDecodeError :: "py_exception \<Rightarrow> bool" where
  "is_JSONDecodeError e = (exc_cls e = JSONDecodeError)"

definition is_Exception :: "py_exception \<Rightarrow> bool" where
  "is_Exception e = (exc_cls e \<noteq> BaseExceptionOnly)"

text \<open>
  A float is kept as what its literal denotes: sign, decimal mantissa and decimal exponent
  (the value \<open>\<plusminus> m * 10 ^ e\<close>), or an infinity, or a NaN. The rounding to binary64 is not
  modelled; no function below reads more of a float than that it exists.
\<close>

datatype py_float = FloatDec bool int int | FloatInf bool | FloatNan bool

section \<open>String primitives: \<^verbatim>\<open>str.split\<close>, \<^verbatim>\<open>int()\<close>, \<^verbatim>\<open>float()\<close>\<close>

text \<open>\<^verbatim>\<open>s.split(sep)\<close> for a separator of one character: never empty, \<^verbatim>\<open>"".split(",") == [""]\<close>.\<close>

fun split_on :: "char \<Rightarrow> string \<Rightarrow> string list" where
  "split_on c [] = [[]]"
| "split_on c (x # xs) =
     (if x = c then [] # split_on c xs
      else (case split_on c xs of [] \<Rightarrow> [[x]] | w # ws \<Rightarrow> (x # w) # ws))"

text \<open>
  The whitespace \<^verbatim>\<open>int()\<close> and \<^verbatim>\<open>float()\<close> strip from both ends of a \<^verbatim>\<open>str\<close>: the ASCII
  whitespace (tab, line feed, vertical tab, form feed, carriage return, space) and, of
  the code points from 128 to 255, the two Unicode spaces U+0085 and U+00A0.
\<close>

definition is_space :: "char \<Rightarrow> bool" where
  "is_space c = (c \<in> set [CHR 0x09, CHR 0x0A, CHR 0x0B, CHR 0x0C, CHR 0x0D, CHR 0x20,
                           CHR 0x85, CHR 0xA0])"

definition py_strip :: "string \<Rightarrow> string" where
  "py_strip s = rev (dropWhile is_space (rev (dropWhile is_space s)))"

definition is_digit :: "char \<Rightarrow> bool" where
  "is_digit c = (c \<in> set ''0123456789'')"

definition digit_val :: "char \<Rightarrow> int" where
  "digit_val c =
     (case map_of (zip ''0123456789'' [0, 1, 2, 3, 4, 5, 6, 7, 8, 9]) c of
        Some v \<Rightarrow> v
      | None \<Rightarrow> 0)"

text \<open>The value of a string of decimal digits, most significant first.\<close>

definition digits_val :: "string \<Rightarrow> int" where
  "digits_val ds = foldl (\<lambda>acc c. 10 * acc + digit_val c) 0 ds"

text \<open>
  The grammar's \<^verbatim>\<open>digitpart ::= digit (["_"] digit)*\<close>, read greedily. \<open>digit_tail\<close> reads
  the part after the first digit and returns the digits read (underscores dropped) and the
  rest of the input; an underscore that no digit follows is left in the rest, where
  nothing accepts it.
\<close>

fun digit_tail :: "string \<Rightarrow> string \<times> string" where
  "digit_tail [] = ([], [])"
| "digit_tail [c] = (if is_digit c then ([c], []) else ([], [c]))"
| "digit_tail (c # d # cs) =
     (if is_digit c then (case digit_tail (d # cs) of (ds, r) \<Rightarrow> (c # ds, r))
      else if c = CHR ''_'' \<and> is_digit d then (case digit_tail cs of (ds, r) \<Rightarrow> (d # ds, r))
      else ([], c # d # cs))"

definition digitpart :: "string \<Rightarrow> (string \<times> string) option" where
  "digitpart s =
     (case s of
        [] \<Rightarrow> None
      | c # cs \<Rightarrow> if is_digit c then (case digit_tail cs of (ds, r) \<Rightarrow> Some (c # ds, r))
                  else None)"

text \<open>An optional sign: whether it is a minus, and the rest.\<close>

definition take_sign :: "string \<Rightarrow> bool \<times> string" where
  "take_sign s =
     (case s of
        [] \<Rightarrow> (False, [])
      | c # cs \<Rightarrow> if c = CHR ''-'' then (True, cs)
                  else if c = CHR ''+'' then (False, cs) else (False, c # cs))"

text \<open>
  \<^verbatim>\<open>int(s)\<close> in base 10; \<open>None\<close> is \<^verbatim>\<open>ValueError\<close>. Whitespace is stripped, a sign is optional,
  the rest is one \<^verbatim>\<open>digitpart\<close>. CPython also raises \<^verbatim>\<open>ValueError\<close> on more than
  \<^verbatim>\<open>sys.get_int_max_str_digits()\<close> digits, 4300 unless reconfigured.
\<close>

definition max_str_digits :: nat where
  "max_str_digits = 4300"

definition py_int :: "string \<Rightarrow> int option" where
  "py_int s =
     (case take_sign (py_strip s) of
        (neg, u) \<Rightarrow>
          (case digitpart u of
             Some (ds, []) \<Rightarrow>
               if length ds > max_str_digits then None
               else Some (if neg then - digits_val ds else digits_val ds)
           | _ \<Rightarrow> None))"

text \<open>Matching a word without regard to ASCII case: the pattern lists, per position, the
  lower-case and the upper-case letter.\<close>

fun ci_match :: "(char \<times> char) list \<Rightarrow> string \<Rightarrow> bool" where
  "ci_match [] [] = True"
| "ci_match ((l, u) # ps) (c # cs) = ((c = l \<or> c = u) \<and> ci_match ps cs)"
| "ci_match _ _ = False"

definition word_inf :: "(char \<times> char) list" where
  "word_inf = zip ''inf'' ''INF''"

definition word_infinity :: "(char \<times> char) list" where
  "word_infinity = zip ''infinity'' ''INFINITY''"

definition word_nan :: "(char \<times> char) list" where
  "word_nan = zip ''nan'' ''NAN''"

text \<open>The optional exponent after a mantissa with integer digits \<open>ip\<close> and fraction digits
  \<open>fp\<close>; the whole rest of the input must be consumed.\<close>

definition float_exponent :: "bool \<Rightarrow> string \<Rightarrow> string \<Rightarrow> string \<Rightarrow> py_float option" where
  "float_exponent neg ip fp r =
     (case r of
        [] \<Rightarrow> Some (FloatDec neg (digits_val (ip @ fp)) (- int (length fp)))
      | c # r' \<Rightarrow>
          if c = CHR ''e'' \<or> c = CHR ''E'' then
            (case take_sign r' of
               (eneg, r'') \<Rightarrow>
                 (case digitpart r'' of
                    Some (ds, []) \<Rightarrow>
                      Some (FloatDec neg (digits_val (ip @ fp))
                        ((if eneg then - digits_val ds else digits_val ds)
                          - int (length fp)))
                  | _ \<Rightarrow> None))
          else None)"

text \<open>
  \<^verbatim>\<open>float(s)\<close>; \<open>None\<close> is \<^verbatim>\<open>ValueError\<close>. The grammar of the language reference:
  \<^verbatim>\<open>number ::= [digitpart] "." digitpart | digitpart ["."]\<close>, then an optional exponent,
  or \<^verbatim>\<open>inf\<close>, \<^verbatim>\<open>infinity\<close>, \<^verbatim>\<open>nan\<close> in any case; a sign before, whitespace around.
\<close>

definition py_float :: "string \<Rightarrow> py_float option" where
  "py_float s =
     (case take_sign (py_strip s) of
        (neg, u) \<Rightarrow>
          if ci_match word_inf u \<or> ci_match word_infinity u then Some (FloatInf neg)
          else if ci_match word_nan u then Some (FloatNan neg)
          else
            (case digitpart u of
               Some (ip, r) \<Rightarrow>
                 (case r of
                    [] \<Rightarrow> float_exponent neg ip [] r
                  | c # r' \<Rightarrow>
                      if c = CHR ''.'' then
                        (case digitpart r' of
                           Some (fp, r'') \<Rightarrow> float_exponent neg ip fp r''
                         | None \<Rightarrow> float_exponent neg ip [] r')
                      else float_exponent neg ip [] r)
             | None \<Rightarrow>
                 (case u of
                    [] \<Rightarrow> None
                  | c # r' \<Rightarrow>
                      if c = CHR ''.'' then
                        (case digitpart r' of
                           Some (fp, r'') \<Rightarrow> float_exponent neg [] fp r''
                         | None \<Rightarrow> None)
                      else None)))"

text \<open>\<^verbatim>\<open>tuple(map(f, parts))\<close>: the first component that \<open>f\<close> rejects raises \<^verbatim>\<open>ValueError\<close>.\<close>

fun map_or_raise :: "(string \<Rightarrow> 'a option) \<Rightarrow> string list \<Rightarrow> py_exception + 'a list" where
  "map_or_raise f [] = Inr []"
| "map_or_raise f (p # ps) =
     (case f p of
        None \<Rightarrow> Inl (Exc ValueError (''ValueError: '' @ p))
      | Some v \<Rightarrow> (case map_or_raise f ps of Inl e \<Rightarrow> Inl e | Inr vs \<Rightarrow> Inr (v # vs)))"

text \<open>\<^verbatim>\<open>a, b = t\<close>: unpacking a tuple of any other length than two raises \<^verbatim>\<open>ValueError\<close>.\<close>

definition unpack2 :: "'a list \<Rightarrow> py_exception + ('a \<times> 'a)" where
  "unpack2 t =
     (case t of
        [a, b] \<Rightarrow> Inr (a, b)
      | _ \<Rightarrow> Inl (Exc ValueError ''ValueError: wrong number of values to unpack''))"

section \<open>Settings dictionaries\<close>

text \<open>
  The settings are what \<^verbatim>\<open>json.loads\<close> or \<^verbatim>\<open>get_settings\<close> builds: a \<^verbatim>\<open>dict\<close> is an
  association list in insertion order, read with \<^const>\<open>map_of\<close> and written with
  \<open>dict_set\<close> (an existing key keeps its place, a new one goes last).
\<close>

datatype json =
    JNull | JBool bool | JInt int | JFloat py_float | JStr string
  | JArr "json list" | JObj "(string \<times> json) list"

fun dict_set :: "(string \<times> 'v) list \<Rightarrow> string \<Rightarrow> 'v \<Rightarrow> (string \<times> 'v) list" where
  "dict_set [] k v = [(k, v)]"
| "dict_set ((k', v') # kvs) k v =
     (if k' = k then (k, v) # kvs else (k', v') # dict_set kvs k v)"

text \<open>\<^verbatim>\<open>x.copy()\<close>: only \<^verbatim>\<open>dict\<close> and \<^verbatim>\<open>list\<close> have the method.\<close>

definition py_copy :: "json \<Rightarrow> py_exception + json" where
  "py_copy j =
     (case j of
        JObj kvs \<Rightarrow> Inr (JObj kvs)
      | JArr xs \<Rightarrow> Inr (JArr xs)
      | _ \<Rightarrow> Inl (Exc AttributeError ''AttributeError: object has no attribute copy''))"

text \<open>\<^verbatim>\<open>x[key]\<close> with a \<^verbatim>\<open>str\<close> key.\<close>

definition py_getitem :: "json \<Rightarrow> string \<Rightarrow> py_exception + json" where
  "py_getitem j key =
     (case j of
        JObj kvs \<Rightarrow>
          (case map_of kvs key of
             Some v \<Rightarrow> Inr v
           | None \<Rightarrow> Inl (Exc KeyError (''KeyError('' @ [CHR 0x27] @ key @ [CHR 0x27] @ '')'')))
      | _ \<Rightarrow> Inl (Exc TypeError ''TypeError: not subscriptable by str''))"

text \<open>\<^verbatim>\<open>x[key] = v\<close> with a \<^verbatim>\<open>str\<close> key.\<close>

definition py_setitem :: "json \<Rightarrow> string \<Rightarrow> json \<Rightarrow> py_exception + json" where
  "py_setitem j key v =
     (case j of
        JObj kvs \<Rightarrow> Inr (JObj (dict_set kvs key v))
      | _ \<Rightarrow> Inl (Exc TypeError ''TypeError: does not support item assignment by str''))"

text \<open>
  \<^verbatim>\<open>limited[category][field] = v\<close>. The nested dictionary is changed in place, so the
  outer dictionary shows the new nested value under the same key. (The copy of
  \<open>limit_on_public\<close> is shallow: the caller's nested dictionaries change too. Nothing
  reads them afterwards, and the categories built by \<^verbatim>\<open>json.loads\<close> and \<^verbatim>\<open>get_settings\<close>
  are distinct objects, so the value model loses nothing the callers observe.)
\<close>

definition set_nested :: "json \<Rightarrow> string \<Rightarrow> string \<Rightarrow> json \<Rightarrow> py_exception + json" where
  "set_nested limited category field v =
     (case py_getitem limited category of
        Inl e \<Rightarrow> Inl e
      | Inr c \<Rightarrow>
          (case py_setitem c field v of
             Inl e \<Rightarrow> Inl e
           | Inr c' \<Rightarrow> py_setitem limited category c'))"

text \<open>\<^verbatim>\<open>GeneratorUI.limit_on_public\<close>.\<close>

definition limit_on_public :: "bool \<Rightarrow> json \<Rightarrow> py_exception + json" where
  "limit_on_public public settings_json =
     (if \<not> public then Inr settings_json
      else
        (case py_copy settings_json of
           Inl e \<Rightarrow> Inl e
         | Inr limited_settings \<Rightarrow>
             (case set_nested limited_settings ''BackgroundSettings'' ''resize_factor'' (JInt 8) of
                Inl e \<Rightarrow> Inl e
              | Inr limited1 \<Rightarrow>
                  set_nested limited1 ''TextureSettings'' ''dissolve'' (JBool False))))"

section \<open>The interface object, the environment of one run, and what a run does\<close>

text \<open>The two options of the game select box.\<close>

datatype game_code = FS25 | FS22

definition game_code_str :: "game_code \<Rightarrow> string" where
  "game_code_str g = (case g of FS25 \<Rightarrow> ''FS25'' | FS22 \<Rightarrow> ''FS22'')"

text \<open>The attributes of \<^verbatim>\<open>GeneratorUI\<close> that \<^verbatim>\<open>generate_map\<close> reads.\<close>

record gui =
  public :: bool
  game_code :: game_code
  lat_lon_input :: string
  map_size_input :: string
  rotation :: int
  expert_mode :: bool
  raw_config :: "string option"
  settings :: json
  custom_schemas :: bool
  texture_schema_input :: "string option"
  tree_schema_input :: "string option"
  custom_osm_enabled :: bool
  custom_osm_path :: "string option"

text \<open>
  What the collaborators outside \<^verbatim>\<open>generator.py\<close> do in one run: for each call the run
  makes, whether it raises and what it returns. \<open>components\<close> is
  \<^verbatim>\<open>len(game.components)\<close> of the game \<^verbatim>\<open>Game.from_code\<close> returns for the selected code.
  \<open>fmt_lat\<close> and \<open>fmt_lon\<close> are the two coordinates formatted with \<^verbatim>\<open>:.5f\<close>, \<open>timestamp\<close> is
  the formatted \<^verbatim>\<open>datetime.now()\<close>. A generator (\<^verbatim>\<open>wait_in_queue\<close>, \<^verbatim>\<open>mp.generate\<close>) is
  the finite list of what it yields and the exception that ends it, if one does. The
  widget calls (\<^verbatim>\<open>st.error\<close>, the status container, the progress bar) and the logger are
  taken not to raise; the progress bar is passed a percentage above 100 only when the
  engine yields more names than the game has components.
\<close>

record env =
  components :: nat
  fmt_lat :: string
  fmt_lon :: string
  timestamp :: string
  maps_directory :: string
  archives_directory :: string
  makedirs_raises :: "py_exception option"
  loads_raw_config :: "py_exception + json"
  all_settings_from_json :: "py_exception + string list"
  loads_texture_schema :: "py_exception + json"
  loads_tree_schema :: "py_exception + json"
  map_ctor_raises :: "py_exception option"
  add_to_queue_raises :: "py_exception option"
  wait_in_queue :: "int list \<times> py_exception option"
  mp_generate :: "string list \<times> py_exception option"
  show_preview_raises :: "py_exception option"
  get_rotated_preview_raises :: "py_exception option"
  mp_pack :: "py_exception + string"
  generation_time :: string
  remove_from_queue_raises :: "py_exception option"

text \<open>
  The calls a run makes, in order. A call that raises is in the trace: the event records
  that the call was made. The icons of the messages are left out of the texts.
\<close>

datatype event =
    StError string
  | Makedirs string
  | JsonLoads string
  | AllSettingsFromJson json
  | MapCtor py_float py_float int int string "string option"
  | AddToQueue string
  | QueuePosition int
  | ProgressBar int
  | Progress int string
  | ShowPreview
  | GetRotatedPreview
  | Pack string
  | SetDownloadPath string
  | SetGenerated bool
  | LogInfo string
  | LogError string
  | StatusSuccess string
  | StatusError string
  | RemoveFromQueue string
  | GetQueueLength
  | StWarning string
  | Button bool
  | OpenFile string
  | DownloadButton string
  | RemoveWithDelay string

text \<open>
  How a block of statements ends: it runs to its end with a value, it executes
  \<^verbatim>\<open>return\<close>, or it raises.
\<close>

datatype 'a step = Next 'a | Return | Raise py_exception

type_synonym 'a comp = "event list \<times> 'a step"

definition bind_c :: "'a comp \<Rightarrow> ('a \<Rightarrow> 'b comp) \<Rightarrow> 'b comp" where
  "bind_c m f =
     (case m of
        (tr, Next x) \<Rightarrow> (case f x of (tr', r) \<Rightarrow> (tr @ tr', r))
      | (tr, Return) \<Rightarrow> (tr, Return)
      | (tr, Raise e) \<Rightarrow> (tr, Raise e))"

text \<open>A call to a collaborator that returns nothing: the event, then the exception if it raises.\<close>

definition call :: "event \<Rightarrow> py_exception option \<Rightarrow> unit comp" where
  "call ev exc = ([ev], (case exc of None \<Rightarrow> Next () | Some e \<Rightarrow> Raise e))"

text \<open>A call to a collaborator that returns a value.\<close>

definition call_val :: "event \<Rightarrow> py_exception + 'a \<Rightarrow> 'a comp" where
  "call_val ev res = ([ev], (case res of Inl e \<Rightarrow> Raise e | Inr v \<Rightarrow> Next v))"

text \<open>The result of an expression that can raise.\<close>

definition eval_c :: "py_exception + 'a \<Rightarrow> 'a comp" where
  "eval_c res = ([], (case res of Inl e \<Rightarrow> Raise e | Inr v \<Rightarrow> Next v))"

section \<open>The properties \<^verbatim>\<open>lat_lon\<close> and \<^verbatim>\<open>map_size\<close>\<close>

text \<open>\<^verbatim>\<open>tuple(map(float, self.lat_lon_input.split(",")))\<close>: a tuple of any length.\<close>

definition lat_lon :: "gui \<Rightarrow> py_exception + py_float list" where
  "lat_lon self = map_or_raise py_float (split_on CHR '','' (lat_lon_input self))"

text \<open>\<^verbatim>\<open>tuple(map(int, self.map_size_input.split("x")))\<close>.\<close>

definition map_size :: "gui \<Rightarrow> py_exception + int list" where
  "map_size self = map_or_raise py_int (split_on CHR ''x'' (map_size_input self))"

text \<open>\<^verbatim>\<open>a, b = self.prop\<close>: the property is evaluated, then its tuple unpacked.\<close>

definition unpack_prop :: "py_exception + 'a list \<Rightarrow> py_exception + ('a \<times> 'a)" where
  "unpack_prop p = (case p of Inl e \<Rightarrow> Inl e | Inr t \<Rightarrow> unpack2 t)"

section \<open>\<^verbatim>\<open>generate_map\<close> and the methods it calls\<close>

text \<open>\<^verbatim>\<open>shorten_coordinate\<close>, from the coordinate already formatted with \<^verbatim>\<open>:.5f\<close>:
  \<^verbatim>\<open>.replace(".", "_")\<close>.\<close>

definition shorten_coordinate :: "string \<Rightarrow> string" where
  "shorten_coordinate formatted = map (\<lambda>c. if c = CHR ''.'' then CHR ''_'' else c) formatted"

text \<open>\<^verbatim>\<open>get_sesion_name\<close>: game code, the two shortened coordinates, the timestamp, joined
  by underscores.\<close>

definition get_sesion_name :: "gui \<Rightarrow> env \<Rightarrow> string" where
  "get_sesion_name self env =
     game_code_str (game_code self) @ ''_''
       @ shorten_coordinate (fmt_lat env) @ ''_'' @ shorten_coordinate (fmt_lon env)
       @ ''_'' @ timestamp env"

text \<open>\<^verbatim>\<open>os.path.join(a, b)\<close> on POSIX.\<close>

definition path_join :: "string \<Rightarrow> string \<Rightarrow> string" where
  "path_join a b =
     (if b \<noteq> [] \<and> hd b = CHR ''/'' then b
      else if a = [] \<or> last a = CHR ''/'' then a @ b
      else a @ ''/'' @ b)"

text \<open>A method called as a statement: its \<^verbatim>\<open>return\<close> ends the method, not the caller.\<close>

definition as_call :: "unit comp \<Rightarrow> unit comp" where
  "as_call m = (case m of (tr, Return) \<Rightarrow> (tr, Next ()) | (tr, r) \<Rightarrow> (tr, r))"

text \<open>\<^verbatim>\<open>map_preview\<close>: silent on inputs that do not parse, else the rotated preview.\<close>

definition map_preview :: "gui \<Rightarrow> env \<Rightarrow> unit comp" where
  "map_preview self env =
     (case unpack_prop (lat_lon self) of
        Inl e \<Rightarrow> if is_ValueError e then ([], Return) else ([], Raise e)
      | Inr (lat, lon) \<Rightarrow>
          (case unpack_prop (map_size self) of
             Inl e \<Rightarrow> if is_ValueError e then ([], Return) else ([], Raise e)
           | Inr (size_m, _) \<Rightarrow> call GetRotatedPreview (get_rotated_preview_raises env)))"

text \<open>
  The loop over \<^verbatim>\<open>mp.generate()\<close>: each name is reported with the counter as it stands,
  then the counter grows by \<open>step\<close>. The value is the counter after the loop.
\<close>

fun generate_loop :: "int \<Rightarrow> int \<Rightarrow> string list \<Rightarrow> py_exception option \<Rightarrow> int comp" where
  "generate_loop step completed [] exc =
     ([], (case exc of None \<Rightarrow> Next completed | Some e \<Rightarrow> Raise e))"
| "generate_loop step completed (component_name # names) exc =
     (case generate_loop step (completed + step) names exc of
        (tr, r) \<Rightarrow> (Progress completed (''Generating '' @ component_name @ ''...'') # tr, r))"

text \<open>
  The body of the \<^verbatim>\<open>try\<close>. \<^verbatim>\<open>int(100 / (len(game.components) + 2))\<close> is the integer
  quotient: the divisor is at least 2, and a true quotient that is not an integer is at
  least 1/100 away from the next one, more than binary64 rounds.
\<close>

definition try_body :: "gui \<Rightarrow> env \<Rightarrow> string \<Rightarrow> unit comp" where
  "try_body self env session_name =
     (let step = 100 div (int (components env) + 2) in
      bind_c ([ProgressBar 0], Next ()) (\<lambda>_.
      bind_c (generate_loop step 0 (fst (mp_generate env)) (snd (mp_generate env))) (\<lambda>completed.
      bind_c ([Progress (completed + step) ''Creating previews...''], Next ()) (\<lambda>_.
      bind_c (call ShowPreview (show_preview_raises env)) (\<lambda>_.
      bind_c (as_call (map_preview self env)) (\<lambda>_.
      bind_c ([Progress (completed + step + step) ''Packing the map...''], Next ()) (\<lambda>_.
      bind_c (call_val (Pack (path_join (archives_directory env) session_name)) (mp_pack env))
        (\<lambda>archive_path.
      ([SetDownloadPath archive_path, SetGenerated True,
        LogInfo (''Map generated in '' @ generation_time env @ '' seconds.''),
        StatusSuccess (''Map generated in '' @ generation_time env @ '' seconds.'')],
       Next ())))))))))"

text \<open>The \<^verbatim>\<open>try\<close> with its \<^verbatim>\<open>except Exception\<close> and its \<^verbatim>\<open>finally\<close>.\<close>

definition try_except_finally :: "gui \<Rightarrow> env \<Rightarrow> string \<Rightarrow> unit comp" where
  "try_except_finally self env session_name =
     (case try_body self env session_name of
        (tr, r) \<Rightarrow>
          (case (case r of
                   Raise e \<Rightarrow>
                     if is_Exception e then
                       (tr @ [LogError (''An error occurred while generating the map: '' @ exc_repr e),
                              StatusError (''An error occurred while generating the map: ''
                                            @ exc_repr e @ ''.'')],
                        Next ())
                     else (tr, Raise e)
                 | _ \<Rightarrow> (tr, r)) of
             (tr2, r2) \<Rightarrow>
               if public self then
                 (tr2 @ [RemoveFromQueue session_name],
                  (case remove_from_queue_raises env of None \<Rightarrow> r2 | Some e' \<Rightarrow> Raise e'))
               else (tr2, r2)))"

text \<open>The loop over \<^verbatim>\<open>wait_in_queue(session_name)\<close>.\<close>

fun wait_loop :: "int list \<Rightarrow> py_exception option \<Rightarrow> unit comp" where
  "wait_loop [] exc = ([], (case exc of None \<Rightarrow> Next () | Some e \<Rightarrow> Raise e))"
| "wait_loop (position # positions) exc =
     (case wait_loop positions exc of (tr, r) \<Rightarrow> (QueuePosition position # tr, r))"

text \<open>Lines 539 to 544: on a public server, enter the queue and wait.\<close>

definition queue_phase :: "gui \<Rightarrow> env \<Rightarrow> string \<Rightarrow> unit comp" where
  "queue_phase self env session_name =
     (if public self then
        bind_c (call (AddToQueue session_name) (add_to_queue_raises env)) (\<lambda>_.
        wait_loop (fst (wait_in_queue env)) (snd (wait_in_queue env)))
      else ([], Next ()))"

text \<open>Lines 485 to 492: the settings of the widgets, or the raw configuration in expert
  mode. \<^verbatim>\<open>json.loads(None)\<close> raises \<^verbatim>\<open>TypeError\<close>.\<close>

definition json_settings :: "gui \<Rightarrow> env \<Rightarrow> json comp" where
  "json_settings self env =
     (if \<not> expert_mode self then ([], Next (settings self))
      else
        (case raw_config self of
           None \<Rightarrow> ([], Raise (Exc TypeError ''TypeError: the JSON object must be str''))
         | Some txt \<Rightarrow>
             (case loads_raw_config env of
                Inl e \<Rightarrow>
                  if is_JSONDecodeError e then
                    ([JsonLoads txt,
                      StError (''Invalid raw configuration was provided: '' @ exc_repr e)],
                     Return)
                  else ([JsonLoads txt], Raise e)
              | Inr j \<Rightarrow> ([JsonLoads txt], Next j))))"

text \<open>One of the two custom schemas, lines 503 to 514: read when the text is not empty.\<close>

definition load_schema :: "string \<Rightarrow> string option \<Rightarrow> py_exception + json \<Rightarrow> json option comp" where
  "load_schema label inp res =
     (case inp of
        None \<Rightarrow> ([], Next None)
      | Some txt \<Rightarrow>
          if txt = [] then ([], Next None)
          else
            (case res of
               Inl e \<Rightarrow>
                 if is_JSONDecodeError e then
                   ([JsonLoads txt,
                     StError (''Invalid '' @ label @ '' schema was provided: '' @ exc_repr e)],
                    Return)
                 else ([JsonLoads txt], Raise e)
             | Inr j \<Rightarrow> ([JsonLoads txt], Next (Some j))))"

definition schemas :: "gui \<Rightarrow> env \<Rightarrow> (json option \<times> json option) comp" where
  "schemas self env =
     (if custom_schemas self then
        bind_c (load_schema ''texture'' (texture_schema_input self) (loads_texture_schema env))
          (\<lambda>texture_schema.
        bind_c (load_schema ''tree'' (tree_schema_input self) (loads_tree_schema env))
          (\<lambda>tree_schema.
        ([], Next (texture_schema, tree_schema))))
      else ([], Next (None, None)))"

text \<open>The six subscripts \<^verbatim>\<open>all_settings["..."]\<close> among the arguments of \<^verbatim>\<open>mfs.Map\<close>, in
  the order they are evaluated: the first missing key raises \<^verbatim>\<open>KeyError\<close>.\<close>

definition map_kwargs :: "string list \<Rightarrow> py_exception + unit" where
  "map_kwargs all_settings =
     (case filter (\<lambda>k. k \<notin> set all_settings)
             [''DEMSettings'', ''BackgroundSettings'', ''GRLESettings'', ''I3DSettings'',
              ''TextureSettings'', ''SplineSettings''] of
        [] \<Rightarrow> Inr ()
      | k # _ \<Rightarrow> Inl (Exc KeyError (''KeyError('' @ [CHR 0x27] @ k @ [CHR 0x27] @ '')'')))"

text \<open>Lines 478 to 544: what \<^verbatim>\<open>generate_map\<close> does between its checks of the form and
  its \<^verbatim>\<open>try\<close>.\<close>

definition before_try :: "gui \<Rightarrow> env \<Rightarrow> py_float \<Rightarrow> py_float \<Rightarrow> int \<Rightarrow> unit comp" where
  "before_try self env lat lon height =
     (let session_name = get_sesion_name self env;
          map_directory = path_join (maps_directory env) session_name;
          osm_path = (if custom_osm_enabled self then custom_osm_path self else None)
      in
      bind_c (call (Makedirs map_directory) (makedirs_raises env)) (\<lambda>_.
      bind_c (json_settings self env) (\<lambda>submitted.
      bind_c (eval_c (limit_on_public (public self) submitted)) (\<lambda>limited.
      bind_c (call_val (AllSettingsFromJson limited) (all_settings_from_json env)) (\<lambda>all_settings.
      bind_c (schemas self env) (\<lambda>_.
      bind_c (eval_c (map_kwargs all_settings)) (\<lambda>_.
      bind_c (call (MapCtor lat lon height (rotation self) map_directory osm_path)
                (map_ctor_raises env)) (\<lambda>_.
      queue_phase self env session_name))))))))"

text \<open>Lines 478 to 584: what \<^verbatim>\<open>generate_map\<close> does once the coordinates and the size
  have passed its checks.\<close>

definition generate_checked :: "gui \<Rightarrow> env \<Rightarrow> py_float \<Rightarrow> py_float \<Rightarrow> int \<Rightarrow> unit comp" where
  "generate_checked self env lat lon height =
     bind_c (before_try self env lat lon height) (\<lambda>_.
     try_except_finally self env (get_sesion_name self env))"

text \<open>
  \<^verbatim>\<open>GeneratorUI.generate_map\<close>. \<^verbatim>\<open>Game.from_code\<close> on one of the two codes of the select box
  returns its game; the run reads only the number of its components.
\<close>

definition generate_map :: "gui \<Rightarrow> env \<Rightarrow> unit comp" where
  "generate_map self env =
     (case unpack_prop (lat_lon self) of
        Inl e \<Rightarrow>
          if is_ValueError e then ([StError ''Invalid latitude and longitude!''], Return)
          else ([], Raise e)
      | Inr (lat, lon) \<Rightarrow>
          (case unpack_prop (map_size self) of
             Inl e \<Rightarrow>
               if is_ValueError e then ([StError ''Invalid map size!''], Return)
               else ([], Raise e)
           | Inr (height, width) \<Rightarrow>
               if height mod 2 \<noteq> 0 \<or> width mod 2 \<noteq> 0 then
                 ([StError ''Map size must be a power of 2. For example: 2, 4, ... 2048, 4096, ...''],
                  Return)
               else if height \<noteq> width then
                 ([StError ''Map size must be square (height == width).''], Return)
               else generate_checked self env lat lon height))"

section \<open>The end of \<^verbatim>\<open>add_left_widgets\<close>: the Generate button and the Download button\<close>

definition QUEUE_LIMIT :: int where
  "QUEUE_LIMIT = 2"

text \<open>
  What one rendering of the page finds: whether the server is the community server, what
  \<^verbatim>\<open>get_queue_length()\<close> returns, whether the user presses the Generate button when it
  can be pressed, the \<open>generated\<close> flag of the session state, whether opening the
  archive raises.
\<close>

record render =
  on_community_server :: bool
  queue_length :: int
  clicked :: bool
  generated :: bool
  open_raises :: "py_exception option"

text \<open>Lines 397 to 400: the flag passed to the button as \<^verbatim>\<open>disabled\<close>.\<close>

definition generate_button_disabled :: "bool \<Rightarrow> int \<Rightarrow> bool" where
  "generate_button_disabled is_public len = (is_public \<and> len \<ge> QUEUE_LIMIT)"

text \<open>
  Lines 396 to 405. \<^verbatim>\<open>and\<close> is lazy: the length is read on a public server only. The
  button is drawn unless the server is the community server; \<^verbatim>\<open>st.button\<close> is true when an
  enabled button is pressed. The event \<open>Button d\<close> is the button drawn with
  \<^verbatim>\<open>disabled=d\<close>.
\<close>

definition generate_button_section :: "gui \<Rightarrow> env \<Rightarrow> render \<Rightarrow> unit comp" where
  "generate_button_section self env rnd =
     (let disabled = generate_button_disabled (public self) (queue_length rnd);
          tr0 = (if public self then [GetQueueLength] else [])
                  @ (if disabled then [StWarning ''Messages.OVERLOADED''] else [])
      in
      if on_community_server rnd then (tr0, Next ())
      else if clicked rnd \<and> \<not> disabled then
        (case as_call (generate_map self env) of (tr, r) \<Rightarrow> (tr0 @ [Button disabled] @ tr, r))
      else (tr0 @ [Button disabled], Next ()))"

text \<open>The session flag and the archive path after the events of a run.\<close>

definition generated_after :: "bool \<Rightarrow> event list \<Rightarrow> bool" where
  "generated_after g tr = foldl (\<lambda>g ev. case ev of SetGenerated b \<Rightarrow> b | _ \<Rightarrow> g) g tr"

definition download_path_after :: "string option \<Rightarrow> event list \<Rightarrow> string option" where
  "download_path_after p tr =
     foldl (\<lambda>p ev. case ev of SetDownloadPath q \<Rightarrow> Some q | _ \<Rightarrow> p) p tr"

text \<open>
  Lines 407 to 423: when the flag is set, the archive is opened, the Download button is
  drawn with it, the deferred removal is requested and the flag is cleared.
  \<^verbatim>\<open>open(None)\<close> raises \<^verbatim>\<open>TypeError\<close>.
\<close>

definition download_section :: "bool \<Rightarrow> string option \<Rightarrow> render \<Rightarrow> unit comp" where
  "download_section is_generated download_path rnd =
     (if \<not> is_generated then ([], Next ())
      else
        (case download_path of
           None \<Rightarrow> ([], Raise (Exc TypeError ''TypeError: expected str, not NoneType''))
         | Some p \<Rightarrow>
             bind_c (call (OpenFile p) (open_raises rnd)) (\<lambda>_.
             ([DownloadButton (last (split_on CHR ''/'' p)), RemoveWithDelay p,
               SetGenerated False], Next ()))))"

text \<open>Lines 396 to 423 together. \<^verbatim>\<open>__init__\<close> has set \<^verbatim>\<open>download_path\<close> to \<^verbatim>\<open>None\<close>.\<close>

definition buttons_and_download :: "gui \<Rightarrow> env \<Rightarrow> render \<Rightarrow> unit comp" where
  "buttons_and_download self env rnd =
     (case generate_button_section self env rnd of
        (tr, Next _) \<Rightarrow>
          (case download_section (generated_after (generated rnd) tr)
                  (download_path_after None tr) rnd of
             (tr', r) \<Rightarrow> (tr @ tr', r))
      | (tr, r) \<Rightarrow> (tr, r))"

text \<open>
  Lines 319 to 324: \<^verbatim>\<open>enable_debug\<close> is bound only when the server is not public, and
  read in either case.
\<close>

definition debug_logs_section :: "bool \<Rightarrow> unit comp" where
  "debug_logs_section is_public =
     (if \<not> is_public then ([], Next ())
      else ([], Raise (Exc UnboundLocalError
              ''UnboundLocalError: cannot access local variable enable_debug'')))"

text \<open>
  \<^verbatim>\<open>GeneratorUI.add_left_widgets\<close>, lines 231 to 423: the sidebar comes before the
  buttons. The widgets of lines 231 to 318 and the rest of the sidebar (lines 326 to 388)
  set the attributes that \<open>gui\<close> holds; their widget calls and file reads are taken not
  to raise.
\<close>

definition add_left_widgets :: "gui \<Rightarrow> env \<Rightarrow> render \<Rightarrow> unit comp" where
  "add_left_widgets self env rnd =
     bind_c (debug_logs_section (public self)) (\<lambda>_. buttons_and_download self env rnd)"

section \<open>Reading a trace\<close>

text \<open>The percentages passed to the progress bar after its creation, in order.\<close>

definition progress_values :: "event list \<Rightarrow> int list" where
  "progress_values tr = concat (map (\<lambda>ev. case ev of Progress v _ \<Rightarrow> [v] | _ \<Rightarrow> []) tr)"

text \<open>The messages of \<^verbatim>\<open>st.error\<close>, the inline errors.\<close>

definition inline_errors :: "event list \<Rightarrow> string list" where
  "inline_errors tr = concat (map (\<lambda>ev. case ev of StError m \<Rightarrow> [m] | _ \<Rightarrow> []) tr)"

text \<open>The messages of \<^verbatim>\<open>status_container.error\<close> and of \<^verbatim>\<open>logger.error\<close>.\<close>

definition status_errors :: "event list \<Rightarrow> string list" where
  "status_errors tr = concat (map (\<lambda>ev. case ev of StatusError m \<Rightarrow> [m] | _ \<Rightarrow> []) tr)"

definition log_errors :: "event list \<Rightarrow> string list" where
  "log_errors tr = concat (map (\<lambda>ev. case ev of LogError m \<Rightarrow> [m] | _ \<Rightarrow> []) tr)"

text \<open>The sessions passed to \<^verbatim>\<open>add_to_queue\<close> and to \<^verbatim>\<open>remove_from_queue\<close>.\<close>

definition enqueued :: "event list \<Rightarrow> string list" where
  "enqueued tr = concat (map (\<lambda>ev. case ev of AddToQueue n \<Rightarrow> [n] | _ \<Rightarrow> []) tr)"

definition released :: "event list \<Rightarrow> string list" where
  "released tr = concat (map (\<lambda>ev. case ev of RemoveFromQueue n \<Rightarrow> [n] | _ \<Rightarrow> []) tr)"

text \<open>The events before the \<^verbatim>\<open>try\<close> of \<^verbatim>\<open>generate_map\<close>.\<close>

definition setup_event :: "event \<Rightarrow> bool" where
  "setup_event ev =
     (case ev of
        StError _ \<Rightarrow> True | Makedirs _ \<Rightarrow> True | JsonLoads _ \<Rightarrow> True
      | AllSettingsFromJson _ \<Rightarrow> True | MapCtor _ _ _ _ _ _ \<Rightarrow> True
      | AddToQueue _ \<Rightarrow> True | QueuePosition _ \<Rightarrow> True | _ \<Rightarrow> False)"

text \<open>The events of the \<^verbatim>\<open>try\<close> statement.\<close>

definition try_event :: "event \<Rightarrow> bool" where
  "try_event ev =
     (case ev of
        ProgressBar _ \<Rightarrow> True | Progress _ _ \<Rightarrow> True | ShowPreview \<Rightarrow> True
      | GetRotatedPreview \<Rightarrow> True | Pack _ \<Rightarrow> True | SetDownloadPath _ \<Rightarrow> True
      | SetGenerated _ \<Rightarrow> True | LogInfo _ \<Rightarrow> True | LogError _ \<Rightarrow> True
      | StatusSuccess _ \<Rightarrow> True | StatusError _ \<Rightarrow> True | RemoveFromQueue _ \<Rightarrow> True
      | _ \<Rightarrow> False)"

text \<open>The events of the body of the \<^verbatim>\<open>try\<close>, without its handler and its \<^verbatim>\<open>finally\<close>.\<close>

definition body_event :: "event \<Rightarrow> bool" where
  "body_event ev =
     (case ev of
        ProgressBar _ \<Rightarrow> True | Progress _ _ \<Rightarrow> True | ShowPreview \<Rightarrow> True
      | GetRotatedPreview \<Rightarrow> True | Pack _ \<Rightarrow> True | SetDownloadPath _ \<Rightarrow> True
      | SetGenerated _ \<Rightarrow> True | LogInfo _ \<Rightarrow> True | StatusSuccess _ \<Rightarrow> True
      | _ \<Rightarrow> False)"

text \<open>\<open>only_after P Q tr\<close>: no event with \<open>Q\<close> comes before the first event with \<open>P\<close>.\<close>

fun only_after :: "(event \<Rightarrow> bool) \<Rightarrow> (event \<Rightarrow> bool) \<Rightarrow> event list \<Rightarrow> bool" where
  "only_after P Q [] = True"
| "only_after P Q (ev # tr) = (if P ev then True else \<not> Q ev \<and> only_after P Q tr)"

definition is_download_button :: "event \<Rightarrow> bool" where
  "is_download_button ev = (case ev of DownloadButton _ \<Rightarrow> True | _ \<Rightarrow> False)"

definition is_remove_with_delay :: "event \<Rightarrow> bool" where
  "is_remove_with_delay ev = (case ev of RemoveWithDelay _ \<Rightarrow> True | _ \<Rightarrow> False)"

definition is_all_settings_from_json :: "event \<Rightarrow> bool" where
  "is_all_settings_from_json ev = (case ev of AllSettingsFromJson _ \<Rightarrow> True | _ \<Rightarrow> False)"

definition is_map_ctor :: "event \<Rightarrow> bool" where
  "is_map_ctor ev = (case ev of MapCtor _ _ _ _ _ _ \<Rightarrow> True | _ \<Rightarrow> False)"

section \<open>The claims' own words\<close>

text \<open>
  A string that splits on the separator into exactly two components, both accepted by the
  parser: the two values, else \<open>None\<close>.
\<close>

definition two_parts :: "(string \<Rightarrow> 'a option) \<Rightarrow> char \<Rightarrow> string \<Rightarrow> ('a \<times> 'a) option" where
  "two_parts f sep s =
     (case split_on sep s of
        [a, b] \<Rightarrow> (case f a of None \<Rightarrow> None
                   | Some x \<Rightarrow> (case f b of None \<Rightarrow> None | Some y \<Rightarrow> Some (x, y)))
      | _ \<Rightarrow> None)"

text \<open>A raw configuration, read in expert mode, on which \<^verbatim>\<open>json.loads\<close> raises
  \<^verbatim>\<open>JSONDecodeError\<close>, the class that line 490 catches.\<close>

definition raw_config_decode_error :: "gui \<Rightarrow> env \<Rightarrow> bool" where
  "raw_config_decode_error self env =
     (expert_mode self \<and> raw_config self \<noteq> None
        \<and> (case loads_raw_config env of Inl e \<Rightarrow> is_JSONDecodeError e | Inr _ \<Rightarrow> False))"

text \<open>Coordinates or a size that do not parse, an odd size, a size that is not square.\<close>

definition malformed_form :: "gui \<Rightarrow> bool" where
  "malformed_form self =
     (two_parts py_float CHR '','' (lat_lon_input self) = None
        \<or> (case two_parts py_int CHR ''x'' (map_size_input self) of
              None \<Rightarrow> True
            | Some (h, w) \<Rightarrow> h mod 2 \<noteq> 0 \<or> w mod 2 \<noteq> 0 \<or> h \<noteq> w))"

text \<open>The settings a run submits: those of the widgets, or the parsed raw configuration.\<close>

definition submitted_settings :: "gui \<Rightarrow> env \<Rightarrow> json option" where
  "submitted_settings self env =
     (if \<not> expert_mode self then Some (settings self)
      else (case loads_raw_config env of Inl e \<Rightarrow> None | Inr j \<Rightarrow> Some j))"

text \<open>A field of a category of a settings dictionary.\<close>

definition settings_field :: "json \<Rightarrow> string \<Rightarrow> string \<Rightarrow> json option" where
  "settings_field j category name =
     (case j of
        JObj kvs \<Rightarrow> (case map_of kvs category of Some (JObj fs) \<Rightarrow> map_of fs name | _ \<Rightarrow> None)
      | _ \<Rightarrow> None)"

text \<open>The admission predicate in the words of the specification.\<close>

definition admit :: "int \<Rightarrow> int \<Rightarrow> bool" where
  "admit len ceiling = (len < ceiling)"

section \<open>The queue store and the deferred removal\<close>

text \<open>
  Modelled from the spec: the queue store behind \<^verbatim>\<open>add_to_queue\<close>, \<^verbatim>\<open>remove_from_queue\<close> and
  \<^verbatim>\<open>get_queue_length\<close> (module \<^verbatim>\<open>queuing\<close>, not among the sources). Section 4.1:
  \<^verbatim>\<open>enqueue(id)\<close> inserts the identifier at the tail if absent and is a no-op if present,
  \<^verbatim>\<open>dequeue(id)\<close> removes it if present and is a no-op if absent, \<^verbatim>\<open>length()\<close> counts the
  entries.
\<close>

definition enqueue :: "string \<Rightarrow> string list \<Rightarrow> string list" where
  "enqueue ident q = (if ident \<in> set q then q else q @ [ident])"

definition dequeue :: "string \<Rightarrow> string list \<Rightarrow> string list" where
  "dequeue ident q = removeAll ident q"

definition store_after :: "event list \<Rightarrow> string list \<Rightarrow> string list" where
  "store_after tr q =
     fold (\<lambda>ev q. case ev of AddToQueue n \<Rightarrow> enqueue n q
                  | RemoveFromQueue n \<Rightarrow> dequeue n q | _ \<Rightarrow> q) tr q"

text \<open>
  Modelled from the spec: \<^verbatim>\<open>config.remove_with_delay_without_blocking\<close>, not among the
  sources. Section 4.5: \<^verbatim>\<open>schedule_delete(path, delay)\<close> arranges the deletion to occur
  after the delay without blocking the caller. The state is a clock, the files that
  exist and the deletions that are due; scheduling adds a deadline and lets no time
  pass, the passing of time deletes what has come due.
\<close>

record artifacts =
  clock :: nat
  files :: "string list"
  pending :: "(string \<times> nat) list"

definition schedule_delete :: "string \<Rightarrow> nat \<Rightarrow> artifacts \<Rightarrow> artifacts" where
  "schedule_delete path delay a = a\<lparr>pending := pending a @ [(path, clock a + delay)]\<rparr>"

definition advance :: "nat \<Rightarrow> artifacts \<Rightarrow> artifacts" where
  "advance t a =
     (let now = clock a + t;
          due = map fst (filter (\<lambda>(p, d). d \<le> now) (pending a))
      in a\<lparr>clock := now,
            files := filter (\<lambda>f. f \<notin> set due) (files a),
            pending := filter (\<lambda>(p, d). now < d) (pending a)\<rparr>)"

definition artifacts_after :: "nat \<Rightarrow> event list \<Rightarrow> artifacts \<Rightarrow> artifacts" where
  "artifacts_after delay tr a =
     fold (\<lambda>ev a. case ev of RemoveWithDelay p \<Rightarrow> schedule_delete p delay a | _ \<Rightarrow> a) tr a"

section \<open>Concrete runs\<close>

text \<open>A public server, the default coordinates of the form, the smallest size of the
  select box, the settings of the widgets.\<close>

definition gui_default :: gui where
  "gui_default =
     \<lparr>public = True, game_code = FS25,
      lat_lon_input = ''45.28571409289627, 20.237433441210115'',
      map_size_input = ''2048x2048'', rotation = 0, expert_mode = False, raw_config = None,
      settings = JObj [(''BackgroundSettings'', JObj [(''resize_factor'', JInt 2)]),
                       (''TextureSettings'', JObj [(''dissolve'', JBool True)])],
      custom_schemas = False, texture_schema_input = None, tree_schema_input = None,
      custom_osm_enabled = False, custom_osm_path = None\<rparr>"

text \<open>A run in which every collaborator succeeds: a game of two components, an engine
  that yields two names, one poll in the queue.\<close>

definition env_default :: env where
  "env_default =
     \<lparr>components = 2, fmt_lat = ''45.28571'', fmt_lon = ''20.23743'',
      timestamp = ''2025-01-01_12-00-00'', maps_directory = ''maps'',
      archives_directory = ''archives'', makedirs_raises = None,
      loads_raw_config = Inr JNull,
      all_settings_from_json =
        Inr [''DEMSettings'', ''BackgroundSettings'', ''GRLESettings'', ''I3DSettings'',
             ''TextureSettings'', ''SplineSettings''],
      loads_texture_schema = Inr JNull, loads_tree_schema = Inr JNull,
      map_ctor_raises = None, add_to_queue_raises = None, wait_in_queue = ([0], None),
      mp_generate = ([''Texture'', ''DEM''], None), show_preview_raises = None,
      get_rotated_preview_raises = None,
      mp_pack = Inr ''archives/FS25_45_28571_20_23743_2025-01-01_12-00-00.zip'',
      generation_time = ''1.5'', remove_from_queue_raises = None\<rparr>"

definition session_default :: string where
  "session_default = ''FS25_45_28571_20_23743_2025-01-01_12-00-00''"

text \<open>The waiting generator raises after one poll.\<close>

definition env_wait_fails :: env where
  "env_wait_fails = env_default\<lparr>wait_in_queue := ([1], Some (Exc OtherException ''OSError()''))\<rparr>"

text \<open>The engine raises after one of its names.\<close>

definition env_engine_fails :: env where
  "env_engine_fails =
     env_default\<lparr>mp_generate := ([''Texture''], Some (Exc OtherException ''RuntimeError()''))\<rparr>"

text \<open>Expert mode with the raw configuration \<^verbatim>\<open>{}\<close>, which is well-formed JSON.\<close>

definition gui_raw_empty :: gui where
  "gui_raw_empty = gui_default\<lparr>expert_mode := True, raw_config := Some ''{}''\<rparr>"

definition env_raw_empty :: env where
  "env_raw_empty = env_default\<lparr>loads_raw_config := Inr (JObj [])\<rparr>"

text \<open>Expert mode with a raw configuration that \<^verbatim>\<open>json.loads\<close> rejects.\<close>

definition gui_raw_broken :: gui where
  "gui_raw_broken = gui_default\<lparr>expert_mode := True, raw_config := Some ''{''\<rparr>"

definition env_raw_broken :: env where
  "env_raw_broken =
     env_default\<lparr>loads_raw_config := Inl (Exc JSONDecodeError ''JSONDecodeError()'')\<rparr>"

text \<open>The same raw configuration when \<^verbatim>\<open>os.makedirs\<close> raises.\<close>

definition env_makedirs_fails :: env where
  "env_makedirs_fails = env_raw_broken\<lparr>makedirs_raises := Some (Exc OtherException ''OSError()'')\<rparr>"

text \<open>Expert mode with a raw configuration of 100000 opening brackets, which is not
  JSON and on which \<^verbatim>\<open>json.loads\<close> raises \<^verbatim>\<open>RecursionError\<close>.\<close>

definition gui_raw_deep :: gui where
  "gui_raw_deep = gui_default\<lparr>expert_mode := True, raw_config := Some (replicate 100000 CHR ''['')\<rparr>"

definition env_raw_deep :: env where
  "env_raw_deep =
     env_default\<lparr>loads_raw_config := Inl (Exc OtherException ''RecursionError()'')\<rparr>"

text \<open>The engine is interrupted before its first name.\<close>

definition env_interrupted :: env where
  "env_interrupted =
     env_default\<lparr>mp_generate := ([], Some (Exc BaseExceptionOnly ''KeyboardInterrupt()''))\<rparr>"



text \<open>Three coordinates; an odd size.\<close>

definition gui_three_coordinates :: gui where
  "gui_three_coordinates = gui_default\<lparr>lat_lon_input := ''1,2,3''\<rparr>"

definition gui_odd_size :: gui where
  "gui_odd_size = gui_default\<lparr>map_size_input := ''2047x2047''\<rparr>"

text \<open>A rendering off the community server, with an empty queue, in which the Generate
  button is pressed if it can be.\<close>

definition render_click :: render where
  "render_click =
     \<lparr>on_community_server = False, queue_length = 0, clicked = True, generated = False,
      open_raises = None\<rparr>"

section \<open>Parsing two components\<close>

lemma map_or_raise_Inl: "map_or_raise f ps = Inl e \<Longrightarrow> exc_cls e = ValueError"
  by (induction ps arbitrary: e) (auto split: option.splits sum.splits)

lemma map_or_raise_Inr: "map_or_raise f ps = Inr vs \<Longrightarrow> map f ps = map Some vs"
  by (induction ps arbitrary: vs) (auto split: option.splits sum.splits)

lemma unpack_two_parts_Some:
  "two_parts f sep s = Some (x, y) \<Longrightarrow> unpack_prop (map_or_raise f (split_on sep s)) = Inr (x, y)"
  by (auto simp: two_parts_def unpack_prop_def unpack2_def split: list.splits option.splits)

lemma unpack_two_parts_None:
  assumes "two_parts f sep s = None"
  shows "\<exists>e. unpack_prop (map_or_raise f (split_on sep s)) = Inl e \<and> exc_cls e = ValueError"
proof (cases "map_or_raise f (split_on sep s)")
  case (Inl e)
  then show ?thesis by (auto simp: unpack_prop_def dest: map_or_raise_Inl)
next
  case (Inr vs)
  from map_or_raise_Inr[OF Inr] have m: "map f (split_on sep s) = map Some vs" .
  have "\<not> (\<exists>a b. vs = [a, b])"
  proof
    assume "\<exists>a b. vs = [a, b]"
    then obtain a b where vs: "vs = [a, b]" by blast
    with m obtain p q where "split_on sep s = [p, q]" "f p = Some a" "f q = Some b"
      by (auto simp: map_eq_Cons_conv)
    with assms show False by (simp add: two_parts_def)
  qed
  then show ?thesis using Inr
    by (auto simp: unpack_prop_def unpack2_def split: list.splits)
qed

section \<open>The checks of \<^verbatim>\<open>generate_map\<close>\<close>

lemma generate_map_bad_coordinates:
  assumes "two_parts py_float CHR '','' (lat_lon_input self) = None"
  shows "generate_map self env = ([StError ''Invalid latitude and longitude!''], Return)"
proof -
  obtain e where "unpack_prop (lat_lon self) = Inl e" "exc_cls e = ValueError"
    using unpack_two_parts_None[OF assms] by (auto simp: lat_lon_def)
  then show ?thesis by (simp add: generate_map_def is_ValueError_def)
qed

lemma generate_map_bad_size:
  assumes "two_parts py_float CHR '','' (lat_lon_input self) = Some (la, lo)"
    and "two_parts py_int CHR ''x'' (map_size_input self) = None"
  shows "generate_map self env = ([StError ''Invalid map size!''], Return)"
proof -
  have c: "unpack_prop (lat_lon self) = Inr (la, lo)"
    using unpack_two_parts_Some[OF assms(1)] by (simp add: lat_lon_def)
  obtain e where "unpack_prop (map_size self) = Inl e" "exc_cls e = ValueError"
    using unpack_two_parts_None[OF assms(2)] by (auto simp: map_size_def)
  then show ?thesis using c by (simp add: generate_map_def is_ValueError_def)
qed

lemma generate_map_parsed:
  assumes "two_parts py_float CHR '','' (lat_lon_input self) = Some (la, lo)"
    and "two_parts py_int CHR ''x'' (map_size_input self) = Some (h, w)"
  shows "generate_map self env =
     (if h mod 2 \<noteq> 0 \<or> w mod 2 \<noteq> 0 then
        ([StError ''Map size must be a power of 2. For example: 2, 4, ... 2048, 4096, ...''], Return)
      else if h \<noteq> w then ([StError ''Map size must be square (height == width).''], Return)
      else generate_checked self env la lo h)"
proof -
  have c: "unpack_prop (lat_lon self) = Inr (la, lo)"
    using unpack_two_parts_Some[OF assms(1)] by (simp add: lat_lon_def)
  have m: "unpack_prop (map_size self) = Inr (h, w)"
    using unpack_two_parts_Some[OF assms(2)] by (simp add: map_size_def)
  show ?thesis using c m by (simp add: generate_map_def)
qed

section \<open>Reading traces\<close>

lemma progress_values_Nil [simp]: "progress_values [] = []"
  by (simp add: progress_values_def)

lemma progress_values_append [simp]:
  "progress_values (a @ b) = progress_values a @ progress_values b"
  by (simp add: progress_values_def)

lemma progress_values_Cons:
  "progress_values (ev # tr) = (case ev of Progress v _ \<Rightarrow> [v] | _ \<Rightarrow> []) @ progress_values tr"
  by (simp add: progress_values_def)

lemma enqueued_Nil [simp]: "enqueued [] = []"
  by (simp add: enqueued_def)

lemma enqueued_Cons:
  "enqueued (ev # tr) = (case ev of AddToQueue n \<Rightarrow> [n] | _ \<Rightarrow> []) @ enqueued tr"
  by (simp add: enqueued_def)

lemma enqueued_append [simp]: "enqueued (a @ b) = enqueued a @ enqueued b"
  by (simp add: enqueued_def)

lemma released_append [simp]: "released (a @ b) = released a @ released b"
  by (simp add: released_def)

lemma status_errors_append [simp]: "status_errors (a @ b) = status_errors a @ status_errors b"
  by (simp add: status_errors_def)

lemma log_errors_append [simp]: "log_errors (a @ b) = log_errors a @ log_errors b"
  by (simp add: log_errors_def)

lemma setup_trace_reads:
  "list_all setup_event tr \<Longrightarrow>
     progress_values tr = [] \<and> released tr = [] \<and> status_errors tr = [] \<and> log_errors tr = []"
  by (induction tr)
     (auto simp: setup_event_def progress_values_def released_def status_errors_def
        log_errors_def split: event.splits)

lemma body_trace_reads:
  "list_all body_event tr \<Longrightarrow>
     enqueued tr = [] \<and> released tr = [] \<and> status_errors tr = [] \<and> log_errors tr = []"
  by (induction tr)
     (auto simp: body_event_def enqueued_def released_def status_errors_def
        log_errors_def split: event.splits)

section \<open>The statements before the \<^verbatim>\<open>try\<close>\<close>

lemma fst_bind_c:
  "fst (bind_c m f) = fst m @ (case snd m of Next x \<Rightarrow> fst (f x) | _ \<Rightarrow> [])"
  by (cases m) (auto simp: bind_c_def split: step.splits prod.splits)

lemma snd_bind_c:
  "snd (bind_c m f) = (case snd m of Next x \<Rightarrow> snd (f x) | Return \<Rightarrow> Return | Raise e \<Rightarrow> Raise e)"
  by (cases m) (auto simp: bind_c_def split: step.splits prod.splits)

lemma bind_c_setup:
  "list_all setup_event (fst m) \<Longrightarrow> (\<And>x. list_all setup_event (fst (f x)))
     \<Longrightarrow> list_all setup_event (fst (bind_c m f))"
  by (simp add: fst_bind_c split: step.splits)

lemma call_setup: "setup_event ev \<Longrightarrow> list_all setup_event (fst (call ev exc))"
  by (simp add: call_def)

lemma call_val_setup: "setup_event ev \<Longrightarrow> list_all setup_event (fst (call_val ev res))"
  by (simp add: call_val_def)

lemma eval_c_setup: "list_all setup_event (fst (eval_c res))"
  by (simp add: eval_c_def)

lemma wait_loop_setup: "list_all setup_event (fst (wait_loop ps exc))"
  by (induction ps) (auto simp: setup_event_def case_prod_beta)

lemma wait_loop_enqueued: "enqueued (fst (wait_loop ps exc)) = []"
  by (induction ps) (auto simp: enqueued_def case_prod_beta)

lemma queue_phase_setup: "list_all setup_event (fst (queue_phase self env s))"
  by (auto simp: queue_phase_def intro!: bind_c_setup call_setup wait_loop_setup
        simp: setup_event_def)

lemma queue_phase_enqueued:
  "enqueued (fst (queue_phase self env s)) = (if public self then [s] else [])"
  by (auto simp: queue_phase_def fst_bind_c call_def enqueued_Cons wait_loop_enqueued
        split: option.splits)

lemma json_settings_setup: "list_all setup_event (fst (json_settings self env))"
  by (auto simp: json_settings_def setup_event_def split: option.splits sum.splits)

lemma json_settings_enqueued: "enqueued (fst (json_settings self env)) = []"
  by (auto simp: json_settings_def enqueued_def split: option.splits sum.splits)

lemma load_schema_setup: "list_all setup_event (fst (load_schema l i r))"
  by (auto simp: load_schema_def setup_event_def split: option.splits sum.splits)

lemma load_schema_enqueued: "enqueued (fst (load_schema l i r)) = []"
  by (auto simp: load_schema_def enqueued_def split: option.splits sum.splits)

lemma schemas_setup: "list_all setup_event (fst (schemas self env))"
  by (auto simp: schemas_def intro!: bind_c_setup load_schema_setup)

lemma schemas_enqueued: "enqueued (fst (schemas self env)) = []"
  by (auto simp: schemas_def fst_bind_c load_schema_enqueued split: step.splits)

lemma bind_c_enqueued:
  "enqueued (fst m) = [] \<Longrightarrow> (\<And>x. snd (f x) = Next y \<longrightarrow> enqueued (fst (f x)) = q)
     \<Longrightarrow> snd (bind_c m f) = Next y \<longrightarrow> enqueued (fst (bind_c m f)) = q"
  by (auto simp: fst_bind_c snd_bind_c split: step.splits)

lemma before_try_setup: "list_all setup_event (fst (before_try self env lat lon h))"
  unfolding before_try_def Let_def
  by (intro bind_c_setup call_setup call_val_setup eval_c_setup json_settings_setup
        schemas_setup queue_phase_setup)
     (simp_all add: setup_event_def)

lemma before_try_enqueued:
  "snd (before_try self env lat lon h) = Next ()
     \<longrightarrow> enqueued (fst (before_try self env lat lon h))
           = (if public self then [get_sesion_name self env] else [])"
  unfolding before_try_def Let_def
  by (intro bind_c_enqueued)
     (simp_all add: json_settings_enqueued schemas_enqueued queue_phase_enqueued
        call_def call_val_def eval_c_def enqueued_Cons)

lemma generate_checked_cases:
  assumes "generate_checked self env lat lon h = (tr, r)"
  shows "(list_all setup_event tr \<and> r \<noteq> Next ())
       \<or> (\<exists>pre. list_all setup_event pre
              \<and> enqueued pre = (if public self then [get_sesion_name self env] else [])
              \<and> tr = pre @ fst (try_except_finally self env (get_sesion_name self env))
              \<and> r = snd (try_except_finally self env (get_sesion_name self env)))"
proof -
  let ?b = "before_try self env lat lon h"
  let ?t = "try_except_finally self env (get_sesion_name self env)"
  have tr: "tr = fst ?b @ (case snd ?b of Next x \<Rightarrow> fst ?t | _ \<Rightarrow> [])"
    using assms fst_bind_c[of ?b "\<lambda>_. ?t"] by (simp add: generate_checked_def)
  have r: "r = (case snd ?b of Next x \<Rightarrow> snd ?t | Return \<Rightarrow> Return | Raise e \<Rightarrow> Raise e)"
    using assms snd_bind_c[of ?b "\<lambda>_. ?t"] by (simp add: generate_checked_def)
  show ?thesis
  proof (cases "snd ?b")
    case (Next u)
    then show ?thesis
      using tr r before_try_setup[of self env lat lon h] before_try_enqueued[of self env lat lon h]
      by auto
  next
    case Return
    then show ?thesis using tr r before_try_setup[of self env lat lon h] by simp
  next
    case (Raise e)
    then show ?thesis using tr r before_try_setup[of self env lat lon h] by simp
  qed
qed

lemma generate_map_cases:
  assumes "generate_map self env = (tr, r)"
  shows "(list_all setup_event tr \<and> r \<noteq> Next ())
       \<or> (\<exists>pre. list_all setup_event pre
              \<and> enqueued pre = (if public self then [get_sesion_name self env] else [])
              \<and> tr = pre @ fst (try_except_finally self env (get_sesion_name self env))
              \<and> r = snd (try_except_finally self env (get_sesion_name self env)))"
proof (cases "two_parts py_float CHR '','' (lat_lon_input self)")
  case None
  then show ?thesis using assms generate_map_bad_coordinates[OF None, of env]
    by (auto simp: setup_event_def)
next
  case (Some c)
  obtain la lo where c: "c = (la, lo)" by (cases c)
  show ?thesis
  proof (cases "two_parts py_int CHR ''x'' (map_size_input self)")
    case None
    then show ?thesis using assms generate_map_bad_size[of self la lo env] Some c
      by (auto simp: setup_event_def)
  next
    case (Some m)
    obtain h w where m: "m = (h, w)" by (cases m)
    have g: "generate_map self env =
       (if h mod 2 \<noteq> 0 \<or> w mod 2 \<noteq> 0 then
          ([StError ''Map size must be a power of 2. For example: 2, 4, ... 2048, 4096, ...''], Return)
        else if h \<noteq> w then ([StError ''Map size must be square (height == width).''], Return)
        else generate_checked self env la lo h)"
      using generate_map_parsed[of self la lo h w env] \<open>two_parts py_float CHR '','' (lat_lon_input self) = Some c\<close> c Some m
      by simp
    show ?thesis
    proof (cases "h mod 2 = 0 \<and> w mod 2 = 0 \<and> h = w")
      case True
      then have "generate_checked self env la lo h = (tr, r)" using g assms by simp
      then show ?thesis by (rule generate_checked_cases)
    next
      case False
      then show ?thesis using g assms by (auto simp: setup_event_def split: if_splits)
    qed
  qed
qed

section \<open>The \<^verbatim>\<open>try\<close> statement\<close>

lemma generate_loop_snd:
  "snd (generate_loop step c names exc)
     = (case exc of None \<Rightarrow> Next (c + int (length names) * step) | Some e \<Rightarrow> Raise e)"
  by (induction names arbitrary: c) (auto simp: case_prod_beta algebra_simps split: option.splits)

lemma generate_loop_progress:
  "progress_values (fst (generate_loop step c names exc))
     = map (\<lambda>i. c + int i * step) [0..<length names]"
proof (induction names arbitrary: c)
  case Nil
  then show ?case by simp
next
  case (Cons n ns)
  have "map (\<lambda>i. c + int i * step) [0..<length (n # ns)]
          = c # map (\<lambda>i. (c + step) + int i * step) [0..<length ns]"
    by (simp add: upt_conv_Cons map_Suc_upt[symmetric] algebra_simps del: upt_Suc)
  then show ?case using Cons[of "c + step"]
    by (simp add: progress_values_Cons case_prod_beta)
qed

lemma generate_loop_body: "list_all body_event (fst (generate_loop step c names exc))"
  by (induction names arbitrary: c) (auto simp: body_event_def case_prod_beta)

lemma map_preview_body: "list_all body_event (fst (as_call (map_preview self env)))"
  by (auto simp: as_call_def map_preview_def call_def body_event_def
        split: sum.splits prod.splits step.splits option.splits)

lemma map_preview_progress: "progress_values (fst (as_call (map_preview self env))) = []"
  by (auto simp: as_call_def map_preview_def call_def progress_values_Cons
        split: sum.splits prod.splits step.splits option.splits)

lemma bind_c_body:
  "list_all body_event (fst m) \<Longrightarrow> (\<And>x. list_all body_event (fst (f x)))
     \<Longrightarrow> list_all body_event (fst (bind_c m f))"
  by (simp add: fst_bind_c split: step.splits)

lemma try_body_body: "list_all body_event (fst (try_body self env s))"
  unfolding try_body_def Let_def
  by (intro bind_c_body generate_loop_body map_preview_body)
     (simp_all add: body_event_def call_def call_val_def)

lemma bind_c_not_Return:
  "snd m \<noteq> Return \<Longrightarrow> (\<And>x. snd (f x) \<noteq> Return) \<Longrightarrow> snd (bind_c m f) \<noteq> Return"
  by (simp add: snd_bind_c split: step.splits)

lemma try_body_not_Return: "snd (try_body self env s) \<noteq> Return"
  unfolding try_body_def Let_def
  by (intro bind_c_not_Return)
     (auto simp: generate_loop_snd call_def call_val_def as_call_def
        split: option.splits sum.splits prod.splits step.splits)

text \<open>The percentages of a body that runs to its end, and of one that does not.\<close>

lemma try_body_progress:
  fixes self env s
  defines "n \<equiv> length (fst (mp_generate env))"
    and "step \<equiv> 100 div (int (components env) + 2)"
  shows "\<exists>k. progress_values (fst (try_body self env s))
           = take k (map (\<lambda>i. int i * step) [0..<n] @ [(int n + 1) * step, (int n + 2) * step])"
    and "snd (try_body self env s) = Next () \<Longrightarrow>
         progress_values (fst (try_body self env s))
           = map (\<lambda>i. int i * step) [0..<n] @ [(int n + 1) * step, (int n + 2) * step]"
proof -
  let ?full = "map (\<lambda>i. int i * step) [0..<n] @ [(int n + 1) * step, (int n + 2) * step]"
  let ?loop = "generate_loop step 0 (fst (mp_generate env)) (snd (mp_generate env))"
  have pl: "progress_values (fst ?loop) = map (\<lambda>i. int i * step) [0..<n]"
    using generate_loop_progress[of step 0 "fst (mp_generate env)" "snd (mp_generate env)"]
    by (simp add: n_def)
  have rl: "snd ?loop = (case snd (mp_generate env) of None \<Rightarrow> Next (int n * step) | Some e \<Rightarrow> Raise e)"
    using generate_loop_snd[of step 0 "fst (mp_generate env)" "snd (mp_generate env)"]
    by (simp add: n_def split: option.splits)
  have pp: "progress_values (fst (as_call (map_preview self env))) = []"
    by (rule map_preview_progress)
  have t0: "progress_values (fst ?loop) = take n ?full" by (simp add: pl)
  have t1: "progress_values (fst ?loop) @ [int n * step + step] = take (n + 1) ?full"
    by (simp add: pl algebra_simps)
  have t2: "progress_values (fst ?loop) @ [int n * step + step, int n * step + step + step] = ?full"
    by (simp add: pl algebra_simps)
  have shape: "(progress_values (fst (try_body self env s)) = progress_values (fst ?loop)
                 \<and> snd (try_body self env s) \<noteq> Next ())
      \<or> (progress_values (fst (try_body self env s)) = progress_values (fst ?loop) @ [int n * step + step]
                 \<and> snd (try_body self env s) \<noteq> Next ())
      \<or> progress_values (fst (try_body self env s))
           = progress_values (fst ?loop) @ [int n * step + step, int n * step + step + step]"
    unfolding try_body_def Let_def step_def[symmetric]
    using pp rl
    by (auto simp: fst_bind_c snd_bind_c call_def call_val_def progress_values_Cons
          split: option.splits sum.splits step.splits)
  show "\<exists>k. progress_values (fst (try_body self env s)) = take k ?full"
    using shape t0 t1 t2 by (metis take_all order_refl)
  show "snd (try_body self env s) = Next () \<Longrightarrow> progress_values (fst (try_body self env s)) = ?full"
    using shape t2 by auto
qed

lemma try_body_success:
  "StatusSuccess m \<in> set (fst (try_body self env s)) \<Longrightarrow> snd (try_body self env s) = Next ()"
proof -
  have a: "StatusSuccess m \<notin> set (fst (generate_loop st c names exc))" for st c names exc
    by (induction names arbitrary: c) (auto simp: case_prod_beta)
  have b: "StatusSuccess m \<notin> set (fst (as_call (map_preview self env)))"
    by (auto simp: as_call_def map_preview_def call_def
          split: sum.splits prod.splits step.splits option.splits)
  show "StatusSuccess m \<in> set (fst (try_body self env s)) \<Longrightarrow> snd (try_body self env s) = Next ()"
    unfolding try_body_def Let_def using a b
    by (auto simp: fst_bind_c snd_bind_c call_def call_val_def
          split: option.splits sum.splits step.splits)
qed

lemma try_except_finally_fst:
  "fst (try_except_finally self env s)
     = fst (try_body self env s)
       @ (case snd (try_body self env s) of
            Raise e \<Rightarrow>
              if is_Exception e then
                [LogError (''An error occurred while generating the map: '' @ exc_repr e),
                 StatusError (''An error occurred while generating the map: '' @ exc_repr e @ ''.'')]
              else []
          | _ \<Rightarrow> [])
       @ (if public self then [RemoveFromQueue s] else [])"
  by (auto simp: try_except_finally_def split: prod.splits step.splits)

lemma try_except_finally_snd:
  "snd (try_except_finally self env s)
     = (case (if public self then remove_from_queue_raises env else None) of
          Some e' \<Rightarrow> Raise e'
        | None \<Rightarrow>
            (case snd (try_body self env s) of
               Raise e \<Rightarrow> if is_Exception e then Next () else Raise e
             | r \<Rightarrow> r))"
  by (auto simp: try_except_finally_def split: prod.splits step.splits option.splits)

section \<open>Runs that enter the \<^verbatim>\<open>try\<close>\<close>

lemma released_Nil [simp]: "released [] = []"
  by (simp add: released_def)

lemma released_Cons:
  "released (ev # tr) = (case ev of RemoveFromQueue n \<Rightarrow> [n] | _ \<Rightarrow> []) @ released tr"
  by (simp add: released_def)

lemma status_errors_Nil [simp]: "status_errors [] = []"
  by (simp add: status_errors_def)

lemma status_errors_Cons:
  "status_errors (ev # tr) = (case ev of StatusError m \<Rightarrow> [m] | _ \<Rightarrow> []) @ status_errors tr"
  by (simp add: status_errors_def)

lemma log_errors_Nil [simp]: "log_errors [] = []"
  by (simp add: log_errors_def)

lemma log_errors_Cons:
  "log_errors (ev # tr) = (case ev of LogError m \<Rightarrow> [m] | _ \<Rightarrow> []) @ log_errors tr"
  by (simp add: log_errors_def)

lemma setup_no_progress_bar: "list_all setup_event tr \<Longrightarrow> ProgressBar v \<notin> set tr"
  by (induction tr) (auto simp: setup_event_def)

text \<open>A run that has entered the \<^verbatim>\<open>try\<close>: what came before, then the \<^verbatim>\<open>try\<close> statement.\<close>

lemma generate_map_entered_try:
  assumes "generate_map self env = (tr, r)" and "ProgressBar v \<in> set tr"
  shows "\<exists>pre. list_all setup_event pre
            \<and> enqueued pre = (if public self then [get_sesion_name self env] else [])
            \<and> tr = pre @ fst (try_except_finally self env (get_sesion_name self env))
            \<and> r = snd (try_except_finally self env (get_sesion_name self env))"
  using generate_map_cases[OF assms(1)] assms(2) setup_no_progress_bar[of tr v] by blast

lemma release_when_try_entered:
  assumes "public self" and "generate_map self env = (tr, r)" and "ProgressBar v \<in> set tr"
  shows "enqueued tr = [get_sesion_name self env] \<and> released tr = [get_sesion_name self env]"
proof -
  let ?s = "get_sesion_name self env"
  obtain pre where pre: "list_all setup_event pre" "enqueued pre = [?s]"
    "tr = pre @ fst (try_except_finally self env ?s)"
    using generate_map_entered_try[OF assms(2,3)] assms(1) by auto
  have body: "enqueued (fst (try_body self env ?s)) = []" "released (fst (try_body self env ?s)) = []"
    using body_trace_reads[OF try_body_body[of self env ?s]] by simp_all
  have "enqueued (fst (try_except_finally self env ?s)) = []"
    using body(1) assms(1)
    by (simp add: try_except_finally_fst enqueued_Cons split: step.splits)
  moreover have "released (fst (try_except_finally self env ?s)) = [?s]"
    using body(2) assms(1)
    by (simp add: try_except_finally_fst released_Cons split: step.splits)
  ultimately show ?thesis using pre setup_trace_reads[OF pre(1)] by simp
qed

section \<open>Runs that stop at a check\<close>

lemma inline_errors_Nil [simp]: "inline_errors [] = []"
  by (simp add: inline_errors_def)

lemma inline_errors_Cons:
  "inline_errors (ev # tr) = (case ev of StError m \<Rightarrow> [m] | _ \<Rightarrow> []) @ inline_errors tr"
  by (simp add: inline_errors_def)

lemma generate_map_shape:
  "generate_map self env =
     (case two_parts py_float CHR '','' (lat_lon_input self) of
        None \<Rightarrow> ([StError ''Invalid latitude and longitude!''], Return)
      | Some (la, lo) \<Rightarrow>
          (case two_parts py_int CHR ''x'' (map_size_input self) of
             None \<Rightarrow> ([StError ''Invalid map size!''], Return)
           | Some (h, w) \<Rightarrow>
               if h mod 2 \<noteq> 0 \<or> w mod 2 \<noteq> 0 then
                 ([StError ''Map size must be a power of 2. For example: 2, 4, ... 2048, 4096, ...''],
                  Return)
               else if h \<noteq> w then ([StError ''Map size must be square (height == width).''], Return)
               else generate_checked self env la lo h))"
  using generate_map_bad_coordinates[of self env] generate_map_bad_size[of self _ _ env]
    generate_map_parsed[of self _ _ _ _ env]
  by (auto split: option.splits simp del: split_paired_All split_paired_Ex)

lemma store_after_unchanged:
  "enqueued tr = [] \<Longrightarrow> released tr = [] \<Longrightarrow> store_after tr q = q"
proof (induction tr arbitrary: q)
  case Nil
  then show ?case by (simp add: store_after_def)
next
  case (Cons ev tr)
  then have "enqueued tr = []" "released tr = []"
    by (simp_all add: enqueued_Cons released_Cons)
  then have "store_after tr q = q" by (rule Cons.IH)
  moreover have "store_after (ev # tr) q = store_after tr q"
    using Cons.prems by (cases ev) (simp_all add: store_after_def enqueued_Cons released_Cons)
  ultimately show ?case by simp
qed










lemma generate_checked_raw_malformed:
  assumes "raw_config_decode_error self env"
  shows "\<exists>d t msg. generate_checked self env la lo h
           = (case makedirs_raises env of
                Some e \<Rightarrow> ([Makedirs d], Raise e)
              | None \<Rightarrow> ([Makedirs d, JsonLoads t, StError msg], Return))"
  using assms
  by (auto simp: raw_config_decode_error_def generate_checked_def before_try_def Let_def bind_c_def
        call_def json_settings_def split: option.splits sum.splits)

lemma malformed_form_inline:
  assumes "malformed_form self"
  shows "\<exists>m. generate_map self env = ([StError m], Return)"
  using assms
  by (auto simp: malformed_form_def generate_map_shape split: option.splits)

lemma well_formed_form_checked:
  assumes "\<not> malformed_form self"
  shows "\<exists>la lo h. generate_map self env = generate_checked self env la lo h"
  using assms
  by (auto simp: malformed_form_def generate_map_shape split: option.splits)

section \<open>The percentages of a run\<close>

lemma setup_no_success: "list_all setup_event tr \<Longrightarrow> StatusSuccess m \<notin> set tr"
  by (induction tr) (auto simp: setup_event_def)

lemma try_except_finally_progress:
  "progress_values (fst (try_except_finally self env s)) = progress_values (fst (try_body self env s))"
  by (simp add: try_except_finally_fst progress_values_Cons split: step.splits)

lemma try_except_finally_success:
  "StatusSuccess m \<in> set (fst (try_except_finally self env s))
     \<Longrightarrow> StatusSuccess m \<in> set (fst (try_body self env s))"
  by (auto simp: try_except_finally_fst split: step.splits if_splits)

lemma generate_map_progress:
  "progress_values (fst (generate_map self env)) = []
   \<or> progress_values (fst (generate_map self env))
        = progress_values (fst (try_body self env (get_sesion_name self env)))"
  using generate_map_cases[of self env "fst (generate_map self env)" "snd (generate_map self env)"]
    setup_trace_reads[of "fst (generate_map self env)"]
  by (auto simp: try_except_finally_progress dest: setup_trace_reads)

lemma generate_map_success:
  assumes "StatusSuccess m \<in> set (fst (generate_map self env))"
  shows "snd (try_body self env (get_sesion_name self env)) = Next ()
       \<and> progress_values (fst (generate_map self env))
            = progress_values (fst (try_body self env (get_sesion_name self env)))"
proof -
  let ?s = "get_sesion_name self env"
  have "\<not> list_all setup_event (fst (generate_map self env))"
    using assms setup_no_success by blast
  then obtain pre where pre: "list_all setup_event pre"
    "fst (generate_map self env) = pre @ fst (try_except_finally self env ?s)"
    using generate_map_cases[of self env "fst (generate_map self env)" "snd (generate_map self env)"]
    by auto
  have "StatusSuccess m \<in> set (fst (try_except_finally self env ?s))"
    using assms pre setup_no_success[OF pre(1), of m] by auto
  then have "snd (try_body self env ?s) = Next ()"
    using try_except_finally_success try_body_success by blast
  moreover have "progress_values (fst (generate_map self env))
            = progress_values (fst (try_body self env ?s))"
    using pre setup_trace_reads[OF pre(1)] by (simp add: try_except_finally_progress)
  ultimately show ?thesis by simp
qed

lemma sorted_schedule:
  assumes "0 \<le> (step::int)"
  shows "sorted (map (\<lambda>i. int i * step) [0..<n] @ [(int n + 1) * step, (int n + 2) * step])"
proof -
  have m: "sorted (map (\<lambda>i. int i * step) [0..<k])" for k
  proof (induction k)
    case 0
    then show ?case by simp
  next
    case (Suc k)
    have "\<forall>x\<in>set (map (\<lambda>i. int i * step) [0..<k]). x \<le> int k * step"
      using assms by (auto intro!: mult_right_mono)
    then show ?case using Suc by (simp add: sorted_append)
  qed
  have b: "\<forall>x\<in>set (map (\<lambda>i. int i * step) [0..<n]). x \<le> (int n + 1) * step"
    using assms by (auto intro!: mult_right_mono)
  have c: "\<forall>x\<in>set (map (\<lambda>i. int i * step) [0..<n]). x \<le> (int n + 2) * step"
    using assms by (auto intro!: mult_right_mono)
  have d: "(int n + 1) * step \<le> (int n + 2) * step"
    using assms by (auto intro!: mult_right_mono)
  show ?thesis using m[of n] b c d by (simp add: sorted_append)
qed

lemma sorted_last_Max:
  assumes "sorted (xs :: int list)" and "xs \<noteq> []"
  shows "Max (set xs) = last xs"
proof (rule Max_eqI)
  show "finite (set xs)" by simp
  show "last xs \<in> set xs" using assms(2) by simp
  fix y assume y: "y \<in> set xs"
  obtain ys where xs: "xs = ys @ [last xs]"
    using assms(2) by (metis append_butlast_last_id)
  then have "sorted (ys @ [last xs])" using assms(1) by simp
  then have "\<forall>z\<in>set ys. z \<le> last xs" by (simp add: sorted_append)
  moreover have "y \<in> set ys \<or> y = last xs"
    using y xs by (metis Un_iff insert_iff list.set(2) set_append empty_iff empty_set)
  ultimately show "y \<le> last xs" by auto
qed

lemma step_nonneg: "0 \<le> 100 div (int c + 2)"
  by (simp add: pos_imp_zdiv_nonneg_iff)

section \<open>The events of a run\<close>

lemma body_event_try_event: "body_event ev \<Longrightarrow> try_event ev"
  by (cases ev) (simp_all add: body_event_def try_event_def)

lemma try_except_finally_events: "list_all try_event (fst (try_except_finally self env s))"
proof -
  have "list_all try_event (fst (try_body self env s))"
    using try_body_body[of self env s] body_event_try_event by (simp add: list_all_iff)
  then show ?thesis
    by (simp add: try_except_finally_fst try_event_def split: step.splits)
qed

lemma generate_map_events:
  "list_all (\<lambda>ev. setup_event ev \<or> try_event ev) (fst (generate_map self env))"
  using generate_map_cases[of self env "fst (generate_map self env)" "snd (generate_map self env)"]
    try_except_finally_events[of self env "get_sesion_name self env"]
  by (auto simp: list_all_iff)

section \<open>The settings on their way to the job\<close>

lemma map_of_dict_set: "map_of (dict_set kvs k v) k' = (if k' = k then Some v else map_of kvs k')"
  by (induction kvs) auto

lemma keys_dict_set: "map_of kvs k \<noteq> None \<Longrightarrow> map fst (dict_set kvs k v) = map fst kvs"
  by (induction kvs) auto

lemma limit_on_public_categories:
  assumes "map_of kvs ''BackgroundSettings'' = Some (JObj bg)"
    and "map_of kvs ''TextureSettings'' = Some (JObj tx)"
  shows "limit_on_public True (JObj kvs)
     = Inr (JObj (dict_set
                   (dict_set kvs ''BackgroundSettings'' (JObj (dict_set bg ''resize_factor'' (JInt 8))))
                   ''TextureSettings'' (JObj (dict_set tx ''dissolve'' (JBool False)))))"
  using assms
  by (simp add: limit_on_public_def py_copy_def set_nested_def py_getitem_def py_setitem_def
        map_of_dict_set)

lemma only_after_no_Q: "list_all (\<lambda>ev. \<not> Q ev) tr \<Longrightarrow> only_after P Q tr"
  by (induction tr) auto

lemma only_after_append: "only_after P Q a \<Longrightarrow> list_all (\<lambda>ev. \<not> Q ev) b \<Longrightarrow> only_after P Q (a @ b)"
  by (induction a) (auto simp: only_after_no_Q)

lemma only_after_plain_prefix:
  "list_all (\<lambda>ev. \<not> Q ev) a \<Longrightarrow> only_after P Q b \<Longrightarrow> only_after P Q (a @ b)"
  by (induction a) auto

lemma only_after_append_iff:
  "list_all (\<lambda>ev. \<not> P ev \<and> \<not> Q ev) a \<Longrightarrow> only_after P Q (a @ b) = only_after P Q b"
  by (induction a) auto

lemma json_settings_plain:
  "list_all (\<lambda>ev. \<not> is_all_settings_from_json ev \<and> \<not> is_map_ctor ev) (fst (json_settings self env))"
  by (auto simp: json_settings_def is_all_settings_from_json_def is_map_ctor_def
        split: option.splits sum.splits)

lemma json_settings_submitted:
  "snd (json_settings self env) = Next sub \<Longrightarrow> submitted_settings self env = Some sub"
  by (auto simp: json_settings_def submitted_settings_def split: option.splits sum.splits if_splits)

lemma load_schema_plain:
  "list_all (\<lambda>ev. \<not> is_all_settings_from_json ev \<and> \<not> is_map_ctor ev) (fst (load_schema l i r))"
  by (auto simp: load_schema_def is_all_settings_from_json_def is_map_ctor_def
        split: option.splits sum.splits)

lemma schemas_plain:
  "list_all (\<lambda>ev. \<not> is_all_settings_from_json ev \<and> \<not> is_map_ctor ev) (fst (schemas self env))"
  by (auto simp: schemas_def fst_bind_c load_schema_plain split: step.splits)

lemma wait_loop_plain:
  "list_all (\<lambda>ev. \<not> is_all_settings_from_json ev \<and> \<not> is_map_ctor ev) (fst (wait_loop ps exc))"
  by (induction ps) (auto simp: case_prod_beta is_all_settings_from_json_def is_map_ctor_def)

lemma queue_phase_plain:
  "list_all (\<lambda>ev. \<not> is_all_settings_from_json ev \<and> \<not> is_map_ctor ev) (fst (queue_phase self env s))"
  by (auto simp: queue_phase_def fst_bind_c call_def wait_loop_plain
        is_all_settings_from_json_def[of "AddToQueue _"] is_map_ctor_def[of "AddToQueue _"]
        split: step.splits option.splits)

lemma plain_not_member:
  "list_all (\<lambda>ev. \<not> is_all_settings_from_json ev \<and> \<not> is_map_ctor ev) tr
     \<Longrightarrow> AllSettingsFromJson l \<notin> set tr"
  by (induction tr) (auto simp: is_all_settings_from_json_def)

lemma not_Inl_Inr: "\<forall>a. x \<noteq> Inl a \<Longrightarrow> \<exists>b. x = Inr b"
  by (cases x) auto

lemma before_try_routing:
  "(\<forall>l. AllSettingsFromJson l \<in> set (fst (before_try self env la lo h)) \<longrightarrow>
      (\<exists>sub. submitted_settings self env = Some sub \<and> limit_on_public (public self) sub = Inr l))
   \<and> only_after is_all_settings_from_json is_map_ctor (fst (before_try self env la lo h))"
proof -
  let ?plain = "\<lambda>ev. \<not> is_all_settings_from_json ev \<and> \<not> is_map_ctor ev"
  let ?js = "json_settings self env"
  let ?sc = "schemas self env"
  let ?q = "queue_phase self env (get_sesion_name self env)"
  have pj: "list_all ?plain (fst ?js)" by (rule json_settings_plain)
  have ps: "list_all ?plain (fst ?sc)" by (rule schemas_plain)
  have pq: "list_all ?plain (fst ?q)" by (rule queue_phase_plain)
  have nj: "\<And>l. AllSettingsFromJson l \<notin> set (fst ?js)" using plain_not_member[OF pj] .
  have ns: "\<And>l. AllSettingsFromJson l \<notin> set (fst ?sc)" using plain_not_member[OF ps] .
  have nq: "\<And>l. AllSettingsFromJson l \<notin> set (fst ?q)" using plain_not_member[OF pq] .
  have qj: "list_all (\<lambda>ev. \<not> is_map_ctor ev) (fst ?js)" using pj by (simp add: list_all_iff)
  have 1: "\<forall>l. AllSettingsFromJson l \<in> set (fst (before_try self env la lo h)) \<longrightarrow>
      (\<exists>sub. submitted_settings self env = Some sub \<and> limit_on_public (public self) sub = Inr l)"
    unfolding before_try_def Let_def
    using nj ns nq json_settings_submitted[of self env] json_settings_submitted[OF sym, of _ self env]
    by (auto simp: fst_bind_c snd_bind_c call_def call_val_def eval_c_def
          split: step.splits option.splits sum.splits dest!: not_Inl_Inr)
  have 2: "only_after is_all_settings_from_json is_map_ctor (fst (before_try self env la lo h))"
    unfolding before_try_def Let_def
    by (simp add: fst_bind_c snd_bind_c call_def call_val_def eval_c_def
          only_after_append_iff[OF pj] is_all_settings_from_json_def is_map_ctor_def
          split: step.splits option.splits sum.splits)
  show ?thesis using 1 2 by blast
qed

lemma try_event_plain:
  "list_all try_event tr \<Longrightarrow> list_all (\<lambda>ev. \<not> is_all_settings_from_json ev \<and> \<not> is_map_ctor ev) tr"
  by (induction tr) (auto simp: try_event_def is_all_settings_from_json_def is_map_ctor_def split: event.splits)

lemma generate_checked_routing:
  "(\<forall>l. AllSettingsFromJson l \<in> set (fst (generate_checked self env la lo h)) \<longrightarrow>
      (\<exists>sub. submitted_settings self env = Some sub \<and> limit_on_public (public self) sub = Inr l))
   \<and> only_after is_all_settings_from_json is_map_ctor (fst (generate_checked self env la lo h))"
proof -
  let ?t = "fst (try_except_finally self env (get_sesion_name self env))"
  have p: "list_all (\<lambda>ev. \<not> is_all_settings_from_json ev \<and> \<not> is_map_ctor ev) ?t"
    using try_event_plain[OF try_except_finally_events] .
  have n: "\<And>l. AllSettingsFromJson l \<notin> set ?t" using plain_not_member[OF p] .
  have q: "list_all (\<lambda>ev. \<not> is_map_ctor ev) ?t" using p by (simp add: list_all_iff)
  show ?thesis
    using before_try_routing[of self env la lo h] n only_after_append[OF _ q]
    by (auto simp: generate_checked_def fst_bind_c split: step.splits)
qed

lemma generate_map_routing:
  "(\<forall>l. AllSettingsFromJson l \<in> set (fst (generate_map self env)) \<longrightarrow>
      (\<exists>sub. submitted_settings self env = Some sub \<and> limit_on_public (public self) sub = Inr l))
   \<and> only_after is_all_settings_from_json is_map_ctor (fst (generate_map self env))"
  using generate_checked_routing[of self env]
  by (auto simp: generate_map_shape is_all_settings_from_json_def is_map_ctor_def
        split: option.splits)

section \<open>The buttons\<close>

lemma run_events_not_widgets:
  "list_all (\<lambda>ev. setup_event ev \<or> try_event ev) tr \<Longrightarrow>
     Button d \<notin> set tr \<and> GetQueueLength \<notin> set tr
     \<and> list_all (\<lambda>ev. \<not> is_download_button ev \<and> \<not> is_remove_with_delay ev) tr"
  by (induction tr)
     (auto simp: setup_event_def try_event_def is_download_button_def is_remove_with_delay_def
        split: event.splits)

lemma as_call_fst: "fst (as_call m) = fst m"
  by (cases m) (auto simp: as_call_def split: step.splits)

lemma generate_button_section_fst:
  "fst (generate_button_section self env rnd)
     = (if public self then [GetQueueLength] else [])
       @ (if generate_button_disabled (public self) (queue_length rnd)
          then [StWarning ''Messages.OVERLOADED''] else [])
       @ (if on_community_server rnd then []
          else Button (generate_button_disabled (public self) (queue_length rnd))
               # (if clicked rnd \<and> \<not> generate_button_disabled (public self) (queue_length rnd)
                  then fst (generate_map self env) else []))"
  by (auto simp: generate_button_section_def Let_def as_call_fst case_prod_beta)

section \<open>The deferred removal\<close>

lemma artifacts_after_Cons:
  "artifacts_after delay (ev # tr) a
     = artifacts_after delay tr (case ev of RemoveWithDelay p \<Rightarrow> schedule_delete p delay a | _ \<Rightarrow> a)"
  by (simp add: artifacts_after_def)

lemma artifacts_after_clock: "clock (artifacts_after delay tr a) = clock a"
  by (induction tr arbitrary: a)
     (simp_all add: artifacts_after_Cons, simp_all add: artifacts_after_def schedule_delete_def
        split: event.splits)

lemma artifacts_after_files: "files (artifacts_after delay tr a) = files a"
  by (induction tr arbitrary: a)
     (simp_all add: artifacts_after_Cons, simp_all add: artifacts_after_def schedule_delete_def
        split: event.splits)

lemma artifacts_after_keeps:
  "x \<in> set (pending a) \<Longrightarrow> x \<in> set (pending (artifacts_after delay tr a))"
proof (induction tr arbitrary: a)
  case Nil
  then show ?case by (simp add: artifacts_after_def)
next
  case (Cons ev tr)
  have "x \<in> set (pending (case ev of RemoveWithDelay p \<Rightarrow> schedule_delete p delay a | _ \<Rightarrow> a))"
    using Cons.prems by (simp add: schedule_delete_def split: event.splits)
  then show ?case unfolding artifacts_after_Cons by (rule Cons.IH)
qed

lemma artifacts_after_pending:
  "RemoveWithDelay p \<in> set tr
     \<Longrightarrow> (p, clock a + delay) \<in> set (pending (artifacts_after delay tr a))"
proof (induction tr arbitrary: a)
  case Nil
  then show ?case by simp
next
  case (Cons ev tr)
  show ?case
  proof (cases "ev = RemoveWithDelay p")
    case True
    have "(p, clock a + delay) \<in> set (pending (schedule_delete p delay a))"
      by (simp add: schedule_delete_def)
    then show ?thesis
      unfolding artifacts_after_Cons True by (simp add: artifacts_after_keeps)
  next
    case False
    then have m: "RemoveWithDelay p \<in> set tr" using Cons.prems by simp
    let ?a' = "case ev of RemoveWithDelay p \<Rightarrow> schedule_delete p delay a | _ \<Rightarrow> a"
    have c: "clock ?a' = clock a" by (simp add: schedule_delete_def split: event.splits)
    show ?thesis unfolding artifacts_after_Cons using Cons.IH[OF m, of ?a'] c by simp
  qed
qed

lemma advance_deletes:
  assumes "(p, d) \<in> set (pending a)" and "d \<le> clock a + t"
  shows "p \<notin> set (files (advance t a))"
  using assms by (auto simp: advance_def Let_def image_iff intro!: bexI[of _ "(p, d)"])

lemma download_section_fst:
  "fst (download_section g dp rnd) = []
   \<or> (\<exists>p. fst (download_section g dp rnd) = [OpenFile p])
   \<or> (\<exists>p. fst (download_section g dp rnd)
            = [OpenFile p, DownloadButton (last (split_on CHR ''/'' p)), RemoveWithDelay p,
               SetGenerated False])"
  by (auto simp: download_section_def bind_c_def call_def split: option.splits)

lemma generate_button_section_widgets:
  "list_all (\<lambda>ev. \<not> is_download_button ev \<and> \<not> is_remove_with_delay ev)
     (fst (generate_button_section self env rnd))"
  using run_events_not_widgets[OF generate_map_events[of self env]]
  by (auto simp: generate_button_section_fst is_download_button_def is_remove_with_delay_def)

lemma buttons_and_download_shape:
  "\<exists>pre post. fst (buttons_and_download self env rnd) = pre @ post
     \<and> list_all (\<lambda>ev. \<not> is_download_button ev \<and> \<not> is_remove_with_delay ev) pre
     \<and> (post = [] \<or> (\<exists>p. post = [OpenFile p])
         \<or> (\<exists>p. post = [OpenFile p, DownloadButton (last (split_on CHR ''/'' p)),
                          RemoveWithDelay p, SetGenerated False]))"
proof (cases "snd (generate_button_section self env rnd)")
  case (Next u)
  let ?tr = "fst (generate_button_section self env rnd)"
  let ?d = "download_section (generated_after (generated rnd) ?tr) (download_path_after None ?tr) rnd"
  have "fst (buttons_and_download self env rnd) = ?tr @ fst ?d"
    using Next by (simp add: buttons_and_download_def case_prod_beta)
  then show ?thesis
    using generate_button_section_widgets[of self env rnd]
      download_section_fst[of "generated_after (generated rnd) ?tr" "download_path_after None ?tr" rnd]
    by blast
next
  case Return
  then have "fst (buttons_and_download self env rnd) = fst (generate_button_section self env rnd) @ []"
    by (simp add: buttons_and_download_def case_prod_beta)
  then show ?thesis using generate_button_section_widgets[of self env rnd] by blast
next
  case (Raise e)
  then have "fst (buttons_and_download self env rnd) = fst (generate_button_section self env rnd) @ []"
    by (simp add: buttons_and_download_def case_prod_beta)
  then show ?thesis using generate_button_section_widgets[of self env rnd] by blast
qed

lemma plain_no_remove:
  "list_all (\<lambda>ev. \<not> is_download_button ev \<and> \<not> is_remove_with_delay ev) tr
     \<Longrightarrow> RemoveWithDelay p \<notin> set tr"
  by (induction tr) (auto simp: is_remove_with_delay_def)

text \<open>
  A raw configuration on which \<^verbatim>\<open>json.loads\<close> raises something other than
  \<^verbatim>\<open>JSONDecodeError\<close>: line 490 does not catch it.
\<close>

lemma generate_checked_raw_other_error:
  assumes "expert_mode self" and "raw_config self = Some t" and "loads_raw_config env = Inl e"
    and "\<not> is_JSONDecodeError e" and "makedirs_raises env = None"
  shows "generate_checked self env la lo h
           = ([Makedirs (path_join (maps_directory env) (get_sesion_name self env)), JsonLoads t],
              Raise e)"
  using assms
  by (simp add: generate_checked_def before_try_def Let_def bind_c_def call_def json_settings_def)

section \<open>Release of the queue slot\<close>

text \<open>
  Claim C1 (exactly-once release): every run of \<^verbatim>\<open>generate_map\<close> on a public server that
  called \<^verbatim>\<open>add_to_queue(session_name)\<close> makes exactly one matching
  \<^verbatim>\<open>remove_from_queue(session_name)\<close> call, also when the failure is raised while waiting
  in the queue.

  The code does not do that. The call of \<^verbatim>\<open>add_to_queue\<close> and the loop over
  \<^verbatim>\<open>wait_in_queue\<close> (lines 539 to 544) stand before the \<^verbatim>\<open>try\<close> whose \<^verbatim>\<open>finally\<close> releases
  the slot (lines 546 to 584). On the public server, with the default form and a waiting
  generator that raises after one poll, the session is enqueued once, the exception
  leaves \<^verbatim>\<open>generate_map\<close>, and \<^verbatim>\<open>remove_from_queue\<close> is not called.
\<close>

theorem queue_slot_not_released_when_waiting_fails:
  "enqueued (fst (generate_map gui_default env_wait_fails)) = [session_default]
   \<and> released (fst (generate_map gui_default env_wait_fails)) = []
   \<and> snd (generate_map gui_default env_wait_fails) = Raise (Exc OtherException ''OSError()'')"
  by code_simp

theorem queue_slot_not_released_witness:
  "released (fst (generate_map gui_default env_wait_fails)) = []"
  using queue_slot_not_released_when_waiting_fails by (rule conjunct1[OF conjunct2])

section \<open>Exceptions and the handler\<close>

text \<open>
  Claim C2, as stated: no exception raised anywhere inside \<^verbatim>\<open>generate_map\<close> escapes it.
  It fails: the handler covers the \<^verbatim>\<open>try\<close> of lines 546 to 581 and nothing before it. On
  the public server, in expert mode, the raw configuration \<^verbatim>\<open>{}\<close> is well-formed JSON
  without the category \<^verbatim>\<open>BackgroundSettings\<close>; \<open>limit_on_public\<close> raises \<^verbatim>\<open>KeyError\<close> at line
  170, and the exception leaves \<^verbatim>\<open>generate_map\<close> with no message shown.
\<close>

theorem key_error_escapes_generate_map:
  "snd (generate_map gui_raw_empty env_raw_empty)
     = Raise (Exc KeyError (''KeyError('' @ [CHR 0x27] @ ''BackgroundSettings'' @ [CHR 0x27] @ '')''))
   \<and> status_errors (fst (generate_map gui_raw_empty env_raw_empty)) = []
   \<and> inline_errors (fst (generate_map gui_raw_empty env_raw_empty)) = []"
  by code_simp

text \<open>
  Claim C2, amended: every instance of \<^verbatim>\<open>Exception\<close> raised inside the \<^verbatim>\<open>try\<close> of lines 546 to
  576 (driving the engine, creating the previews, packing) is caught by the one handler
  of line 577, logged once and shown once, in a status message that contains \<^verbatim>\<open>repr(e)\<close>;
  \<^verbatim>\<open>generate_map\<close> then goes on normally, unless \<^verbatim>\<open>remove_from_queue\<close> raises in the
  \<^verbatim>\<open>finally\<close> of a public server, and then it is that exception which leaves. An exception
  leaves a run that has entered the \<^verbatim>\<open>try\<close> only if \<^verbatim>\<open>remove_from_queue\<close> raised it in the
  \<^verbatim>\<open>finally\<close>, or if the body raised it and it is no instance of \<^verbatim>\<open>Exception\<close>. A run has
  entered the \<^verbatim>\<open>try\<close> when the progress bar of line 547 was created.
\<close>

theorem exceptions_in_try_are_caught:
  assumes "generate_map self env = (tr, r)" and "ProgressBar 0 \<in> set tr"
  shows "(\<forall>e. snd (try_body self env (get_sesion_name self env)) = Raise e \<and> is_Exception e \<longrightarrow>
            status_errors tr = [''An error occurred while generating the map: '' @ exc_repr e @ ''.'']
            \<and> log_errors tr = [''An error occurred while generating the map: '' @ exc_repr e]
            \<and> r = (case (if public self then remove_from_queue_raises env else None) of
                     None \<Rightarrow> Next ()
                   | Some e' \<Rightarrow> Raise e'))
       \<and> (\<forall>e. r = Raise e \<longrightarrow>
            (public self \<and> remove_from_queue_raises env = Some e)
            \<or> (\<not> is_Exception e \<and> snd (try_body self env (get_sesion_name self env)) = Raise e))
       \<and> r \<noteq> Return"
proof -
  let ?s = "get_sesion_name self env"
  obtain pre where pre: "list_all setup_event pre"
    "tr = pre @ fst (try_except_finally self env ?s)"
    "r = snd (try_except_finally self env ?s)"
    using generate_map_entered_try[OF assms] by auto
  have body: "status_errors (fst (try_body self env ?s)) = []"
    "log_errors (fst (try_body self env ?s)) = []"
    using body_trace_reads[OF try_body_body[of self env ?s]] by simp_all
  have nr: "snd (try_body self env ?s) \<noteq> Return" by (rule try_body_not_Return)
  have 1: "\<forall>e. snd (try_body self env ?s) = Raise e \<and> is_Exception e \<longrightarrow>
            status_errors tr = [''An error occurred while generating the map: '' @ exc_repr e @ ''.'']
            \<and> log_errors tr = [''An error occurred while generating the map: '' @ exc_repr e]
            \<and> r = (case (if public self then remove_from_queue_raises env else None) of
                     None \<Rightarrow> Next ()
                   | Some e' \<Rightarrow> Raise e')"
    using pre(2,3) body setup_trace_reads[OF pre(1)]
    by (auto simp: try_except_finally_fst try_except_finally_snd status_errors_Cons log_errors_Cons
          split: option.splits)
  have 2: "\<forall>e. r = Raise e \<longrightarrow>
            (public self \<and> remove_from_queue_raises env = Some e)
            \<or> (\<not> is_Exception e \<and> snd (try_body self env ?s) = Raise e)"
    using pre(3) nr by (auto simp: try_except_finally_snd split: option.splits step.splits if_splits)
  have 3: "r \<noteq> Return"
    using pre(3) nr by (auto simp: try_except_finally_snd split: option.splits step.splits if_splits)
  show ?thesis using 1 2 3 by blast
qed

text \<open>
  The engine raises \<^verbatim>\<open>RuntimeError\<close> on a public server: one status message, one log line,
  and the run goes on normally. A \<^verbatim>\<open>KeyboardInterrupt\<close> of the engine is no instance of
  \<^verbatim>\<open>Exception\<close> and leaves.
\<close>

theorem exceptions_in_try_are_caught_witness:
  "status_errors (fst (generate_map gui_default env_engine_fails))
     = [''An error occurred while generating the map: RuntimeError().'']
   \<and> log_errors (fst (generate_map gui_default env_engine_fails))
     = [''An error occurred while generating the map: RuntimeError()'']
   \<and> snd (generate_map gui_default env_engine_fails) = Next ()
   \<and> snd (generate_map gui_default env_interrupted)
       = Raise (Exc BaseExceptionOnly ''KeyboardInterrupt()'')
   \<and> \<not> is_Exception (Exc BaseExceptionOnly ''KeyboardInterrupt()'')"
proof -
  have a: "generate_map gui_default env_engine_fails
             = (fst (generate_map gui_default env_engine_fails),
                snd (generate_map gui_default env_engine_fails))"
    by simp
  have b: "ProgressBar 0 \<in> set (fst (generate_map gui_default env_engine_fails))"
    by code_simp
  have c: "snd (try_body gui_default env_engine_fails (get_sesion_name gui_default env_engine_fails))
             = Raise (Exc OtherException ''RuntimeError()'')"
    by code_simp
  have d: "is_Exception (Exc OtherException ''RuntimeError()'')"
    by (simp add: is_Exception_def)
  have q: "remove_from_queue_raises env_engine_fails = None" by code_simp
  have a': "generate_map gui_default env_interrupted
              = (fst (generate_map gui_default env_interrupted),
                 snd (generate_map gui_default env_interrupted))"
    by simp
  have b': "ProgressBar 0 \<in> set (fst (generate_map gui_default env_interrupted))"
    by code_simp
  have r': "snd (generate_map gui_default env_interrupted)
              = Raise (Exc BaseExceptionOnly ''KeyboardInterrupt()'')"
    by code_simp
  have q': "remove_from_queue_raises env_interrupted = None" by code_simp
  note t = exceptions_in_try_are_caught[OF a b]
  note t' = exceptions_in_try_are_caught[OF a' b']
  have 1: "status_errors (fst (generate_map gui_default env_engine_fails))
            = [''An error occurred while generating the map: ''
                 @ exc_repr (Exc OtherException ''RuntimeError()'') @ ''.'']
         \<and> log_errors (fst (generate_map gui_default env_engine_fails))
            = [''An error occurred while generating the map: ''
                 @ exc_repr (Exc OtherException ''RuntimeError()'')]
         \<and> snd (generate_map gui_default env_engine_fails)
            = (case (if public gui_default then remove_from_queue_raises env_engine_fails else None) of
                 None \<Rightarrow> Next () | Some e' \<Rightarrow> Raise e')"
    using conjunct1[OF t, THEN spec, THEN mp, OF conjI[OF c d]] .
  have 2: "(public gui_default
            \<and> remove_from_queue_raises env_interrupted
                = Some (Exc BaseExceptionOnly ''KeyboardInterrupt()''))
        \<or> (\<not> is_Exception (Exc BaseExceptionOnly ''KeyboardInterrupt()'')
            \<and> snd (try_body gui_default env_interrupted (get_sesion_name gui_default env_interrupted))
                 = Raise (Exc BaseExceptionOnly ''KeyboardInterrupt()''))"
    using conjunct1[OF conjunct2[OF t'], THEN spec, THEN mp, OF r'] .
  then have 3: "\<not> is_Exception (Exc BaseExceptionOnly ''KeyboardInterrupt()'')"
    using q' by simp
  show ?thesis using 1 3 r' q by simp
qed

section \<open>Validation of the form\<close>




text \<open>
  Claim C4, as stated: for every input failing validation, a malformed raw configuration
  included, \<^verbatim>\<open>generate_map\<close> returns with an inline error message before any call to
  \<^verbatim>\<open>add_to_queue\<close>. It fails for the raw configuration, which is parsed at line 489, after
  \<^verbatim>\<open>os.makedirs\<close> at line 483, under a handler (line 490) of \<^verbatim>\<open>JSONDecodeError\<close> alone. With
  the raw configuration \<^verbatim>\<open>{"a":\<close> and a directory that cannot be created, \<^verbatim>\<open>OSError\<close> leaves
  \<^verbatim>\<open>generate_map\<close> and no inline error is shown. With a raw configuration of 100000 opening
  brackets, on which \<^verbatim>\<open>json.loads\<close> raises \<^verbatim>\<open>RecursionError\<close>, that exception leaves
  \<^verbatim>\<open>generate_map\<close> and no inline error is shown.
\<close>

theorem malformed_raw_config_without_inline_error:
  "raw_config_decode_error gui_raw_broken env_makedirs_fails
   \<and> snd (generate_map gui_raw_broken env_makedirs_fails) = Raise (Exc OtherException ''OSError()'')
   \<and> inline_errors (fst (generate_map gui_raw_broken env_makedirs_fails)) = []
   \<and> expert_mode gui_raw_deep
   \<and> raw_config gui_raw_deep = Some (replicate 100000 CHR ''['')
   \<and> snd (generate_map gui_raw_deep env_raw_deep) = Raise (Exc OtherException ''RecursionError()'')
   \<and> inline_errors (fst (generate_map gui_raw_deep env_raw_deep)) = []"
proof -
  have 1: "raw_config_decode_error gui_raw_broken env_makedirs_fails
   \<and> snd (generate_map gui_raw_broken env_makedirs_fails) = Raise (Exc OtherException ''OSError()'')
   \<and> inline_errors (fst (generate_map gui_raw_broken env_makedirs_fails)) = []"
    by code_simp
  have f: "lat_lon_input gui_raw_deep = lat_lon_input gui_default"
    "map_size_input gui_raw_deep = map_size_input gui_default"
    by (simp_all add: gui_raw_deep_def)
  have la: "two_parts py_float CHR '','' (lat_lon_input gui_default)
              = Some (FloatDec False 4528571409289627 (- 14), FloatDec False 20237433441210115 (- 15))"
    by code_simp
  have sz: "two_parts py_int CHR ''x'' (map_size_input gui_default) = Some (2048, 2048)"
    by code_simp
  have g: "generate_map gui_raw_deep env_raw_deep
             = generate_checked gui_raw_deep env_raw_deep
                 (FloatDec False 4528571409289627 (- 14)) (FloatDec False 20237433441210115 (- 15)) 2048"
    by (simp add: generate_map_shape f la sz)
  have x: "expert_mode gui_raw_deep" "raw_config gui_raw_deep = Some (replicate 100000 CHR ''['')"
    by (simp_all add: gui_raw_deep_def)
  have y: "loads_raw_config env_raw_deep = Inl (Exc OtherException ''RecursionError()'')"
    "makedirs_raises env_raw_deep = None"
    by (simp_all add: env_raw_deep_def env_default_def)
  have z: "\<not> is_JSONDecodeError (Exc OtherException ''RecursionError()'')"
    by (simp add: is_JSONDecodeError_def)
  have 2: "snd (generate_map gui_raw_deep env_raw_deep) = Raise (Exc OtherException ''RecursionError()'')
         \<and> inline_errors (fst (generate_map gui_raw_deep env_raw_deep)) = []"
    unfolding g generate_checked_raw_other_error[OF x(1) x(2) y(1) z y(2)]
    by (simp add: inline_errors_Cons)
  show ?thesis using 1 2 x by simp
qed

text \<open>
  Claim C4, amended: for every form failing the checks of lines 454 to 476 (coordinates
  that are not two floats, a size that is not two integers, an odd size, a size that is
  not square), \<^verbatim>\<open>generate_map\<close> shows one inline error and returns. For a raw configuration
  on which \<^verbatim>\<open>json.loads\<close> raises \<^verbatim>\<open>JSONDecodeError\<close> it shows one inline error and returns
  when \<^verbatim>\<open>os.makedirs\<close>, which runs first, did not raise. In all these cases neither
  \<^verbatim>\<open>add_to_queue\<close> nor \<^verbatim>\<open>remove_from_queue\<close> is called, and the queue is as it was.
\<close>

theorem invalid_input_reported_before_enqueue:
  assumes "malformed_form self \<or> raw_config_decode_error self env"
  shows "enqueued (fst (generate_map self env)) = []
       \<and> released (fst (generate_map self env)) = []
       \<and> (\<forall>q. store_after (fst (generate_map self env)) q = q)
       \<and> (malformed_form self \<or> makedirs_raises env = None
            \<longrightarrow> snd (generate_map self env) = Return
                \<and> length (inline_errors (fst (generate_map self env))) = 1)"
proof (cases "malformed_form self")
  case True
  then obtain m where m: "generate_map self env = ([StError m], Return)"
    using malformed_form_inline by blast
  have q: "enqueued [StError m] = []" "released [StError m] = []"
    by (simp_all add: enqueued_Cons released_Cons)
  show ?thesis
    using q store_after_unchanged[OF q] by (simp add: m inline_errors_Cons)
next
  case False
  then have raw: "raw_config_decode_error self env" using assms by simp
  obtain la lo h where g: "generate_map self env = generate_checked self env la lo h"
    using well_formed_form_checked[OF False] by blast
  obtain d t msg where c: "generate_checked self env la lo h
           = (case makedirs_raises env of
                Some e \<Rightarrow> ([Makedirs d], Raise e)
              | None \<Rightarrow> ([Makedirs d, JsonLoads t, StError msg], Return))"
    using generate_checked_raw_malformed[OF raw] by blast
  have e: "enqueued (fst (generate_map self env)) = []"
    and r: "released (fst (generate_map self env)) = []"
    by (simp_all add: g c enqueued_Cons released_Cons split: option.splits)
  have i: "makedirs_raises env = None
            \<longrightarrow> snd (generate_map self env) = Return
                \<and> length (inline_errors (fst (generate_map self env))) = 1"
    by (simp add: g c inline_errors_Cons)
  show ?thesis using e r i False store_after_unchanged[OF e r] by simp
qed

theorem invalid_input_reported_before_enqueue_witness:
  "enqueued (fst (generate_map gui_odd_size env_default)) = []
   \<and> snd (generate_map gui_odd_size env_default) = Return
   \<and> length (inline_errors (fst (generate_map gui_odd_size env_default))) = 1
   \<and> enqueued (fst (generate_map gui_raw_broken env_raw_broken)) = []
   \<and> snd (generate_map gui_raw_broken env_raw_broken) = Return
   \<and> length (inline_errors (fst (generate_map gui_raw_broken env_raw_broken))) = 1"
proof -
  have a: "malformed_form gui_odd_size" by code_simp
  have b: "raw_config_decode_error gui_raw_broken env_raw_broken" by code_simp
  have c: "makedirs_raises env_raw_broken = None" by code_simp
  show ?thesis
    using invalid_input_reported_before_enqueue[of gui_odd_size env_default] a
      invalid_input_reported_before_enqueue[of gui_raw_broken env_raw_broken] b c
    by blast
qed

text \<open>
  Claim C10: a coordinate string that does not split on the comma into exactly two
  components that \<^verbatim>\<open>float\<close> accepts, and a size string that does not split on \<^verbatim>\<open>x\<close> into
  exactly two components that \<^verbatim>\<open>int\<close> accepts (too few and too many components
  included), raise \<^verbatim>\<open>ValueError\<close>, which \<^verbatim>\<open>generate_map\<close> catches: the run is the inline
  error and a \<^verbatim>\<open>return\<close>, whatever the environment does. The size is read once the
  coordinates have parsed.
\<close>

theorem parse_failures_are_handled:
  "(two_parts py_float CHR '','' (lat_lon_input self) = None \<longrightarrow>
      (\<exists>e. unpack_prop (lat_lon self) = Inl e \<and> exc_cls e = ValueError)
      \<and> generate_map self env = ([StError ''Invalid latitude and longitude!''], Return))
   \<and> (two_parts py_float CHR '','' (lat_lon_input self) \<noteq> None
        \<and> two_parts py_int CHR ''x'' (map_size_input self) = None \<longrightarrow>
      (\<exists>e. unpack_prop (map_size self) = Inl e \<and> exc_cls e = ValueError)
      \<and> generate_map self env = ([StError ''Invalid map size!''], Return))"
  using unpack_two_parts_None[of py_float "CHR '',''" "lat_lon_input self"]
    unpack_two_parts_None[of py_int "CHR ''x''" "map_size_input self"]
  by (auto simp: generate_map_shape lat_lon_def map_size_def)

theorem parse_failures_are_handled_witness:
  "generate_map gui_three_coordinates env_default
     = ([StError ''Invalid latitude and longitude!''], Return)
   \<and> generate_map (gui_default\<lparr>map_size_input := ''2048''\<rparr>) env_default
     = ([StError ''Invalid map size!''], Return)"
proof -
  let ?g = "gui_default\<lparr>map_size_input := ''2048''\<rparr>"
  have a: "two_parts py_float CHR '','' (lat_lon_input gui_three_coordinates) = None"
    by code_simp
  have b: "two_parts py_float CHR '','' (lat_lon_input ?g) \<noteq> None
           \<and> two_parts py_int CHR ''x'' (map_size_input ?g) = None"
    by code_simp
  show ?thesis
    using parse_failures_are_handled[of gui_three_coordinates env_default] a
      parse_failures_are_handled[of ?g env_default] b
    by blast
qed

section \<open>The progress bar\<close>

text \<open>
  Claim C5, as stated: the percentage reported after completing \<open>k\<close> stages is \<open>k\<close> times
  the step \<^verbatim>\<open>int(100 / (stage_count + 2))\<close>, the last two increments being those of the
  previews and of the packing. It fails: the loop reports the counter before it adds the
  step, and the counter is stepped once more before the previews are reported. A game of
  two components whose engine yields two names has the step 25 and reports 0, 25, 75 and
  100: the first name is reported with 0, and twice the step, 50, is never reported,
  neither with the second name nor after it.
\<close>

theorem two_stage_run_never_reports_fifty:
  "components env_default = 2
   \<and> fst (mp_generate env_default) = [''Texture'', ''DEM'']
   \<and> progress_values (fst (generate_map gui_default env_default)) = [0, 25, 75, 100]
   \<and> status_errors (fst (generate_map gui_default env_default)) = []
   \<and> snd (generate_map gui_default env_default) = Next ()"
  by code_simp

text \<open>
  Claim C5, amended: in a run that succeeds, with \<open>n\<close> the number of names the engine
  yields and the step \<^verbatim>\<open>int(100 / (stage_count + 2))\<close>, the name number \<open>k\<close> (from 1 to \<open>n\<close>)
  is reported with \<open>k - 1\<close> times the step, the number of names before it; the previews
  are reported with \<open>n + 1\<close> times the step and the packing with \<open>n + 2\<close> times the step.
  When the engine yields as many names as the game has components the last report is at
  most 100. When the step is positive, every earlier report is below the last one, so
  the maximum is reached at the packing step only, and \<open>n\<close> times the step is not
  reported.
\<close>

theorem progress_reports_of_a_successful_run:
  assumes "StatusSuccess m \<in> set (fst (generate_map self env))"
  shows "progress_values (fst (generate_map self env))
           = map (\<lambda>k. int k * (100 div (int (components env) + 2)))
               [0..<length (fst (mp_generate env))]
             @ [(int (length (fst (mp_generate env))) + 1) * (100 div (int (components env) + 2)),
                (int (length (fst (mp_generate env))) + 2) * (100 div (int (components env) + 2))]
       \<and> (length (fst (mp_generate env)) = components env
            \<longrightarrow> last (progress_values (fst (generate_map self env))) \<le> 100)
       \<and> (0 < 100 div (int (components env) + 2)
            \<longrightarrow> (\<forall>v \<in> set (butlast (progress_values (fst (generate_map self env)))).
                   v < last (progress_values (fst (generate_map self env))))
                \<and> int (length (fst (mp_generate env))) * (100 div (int (components env) + 2))
                     \<notin> set (progress_values (fst (generate_map self env))))"
proof -
  let ?n = "length (fst (mp_generate env))"
  let ?step = "100 div (int (components env) + 2)"
  let ?pv = "progress_values (fst (generate_map self env))"
  have s: "snd (try_body self env (get_sesion_name self env)) = Next ()"
    and e: "?pv = progress_values (fst (try_body self env (get_sesion_name self env)))"
    using generate_map_success[OF assms] by simp_all
  have pv: "?pv = map (\<lambda>k. int k * ?step) [0..<?n] @ [(int ?n + 1) * ?step, (int ?n + 2) * ?step]"
    using try_body_progress(2)[OF s] e by simp
  have l: "last ?pv = (int ?n + 2) * ?step" by (simp add: pv)
  have bl: "butlast ?pv = map (\<lambda>k. int k * ?step) [0..<?n] @ [(int ?n + 1) * ?step]"
    by (simp add: pv butlast_append)
  have "(int (components env) + 2) * ?step \<le> 100"
  proof -
    have "(int (components env) + 2) * ?step + 100 mod (int (components env) + 2) = 100"
      by (rule mult_div_mod_eq)
    moreover have "0 \<le> 100 mod (int (components env) + 2)"
      by (rule pos_mod_sign) simp
    ultimately show ?thesis by linarith
  qed
  then have 2: "?n = components env \<longrightarrow> last ?pv \<le> 100" by (simp add: l)
  have 3: "0 < ?step \<longrightarrow> (\<forall>v \<in> set (butlast ?pv). v < last ?pv) \<and> int ?n * ?step \<notin> set ?pv"
  proof
    assume st: "0 < ?step"
    have a: "\<forall>v \<in> set (butlast ?pv). v < last ?pv"
      unfolding bl l using st by (auto intro!: mult_strict_right_mono)
    have b: "int ?n * ?step \<notin> set ?pv"
    proof
      assume "int ?n * ?step \<in> set ?pv"
      then have "int ?n * ?step \<in> set (map (\<lambda>k. int k * ?step) [0..<?n] @ [(int ?n + 1) * ?step, (int ?n + 2) * ?step])"
        using pv by simp
      then consider k where "k < ?n" "int ?n * ?step = int k * ?step"
        | "int ?n * ?step = (int ?n + 1) * ?step" | "int ?n * ?step = (int ?n + 2) * ?step"
        by auto
      then show False
      proof cases
        case 1
        then have "int ?n = int k" using st by simp
        then show False using 1(1) by simp
      next
        case 2
        then show False using st by simp
      next
        case 3
        then show False using st by simp
      qed
    qed
    show "(\<forall>v \<in> set (butlast ?pv). v < last ?pv) \<and> int ?n * ?step \<notin> set ?pv"
      using a b by blast
  qed
  show ?thesis using pv 2 3 by blast
qed

theorem progress_reports_of_a_successful_run_witness:
  "progress_values (fst (generate_map gui_default env_default)) = [0, 25, 75, 100]
   \<and> length (fst (mp_generate env_default)) = components env_default
   \<and> last (progress_values (fst (generate_map gui_default env_default))) \<le> 100
   \<and> 0 < 100 div (int (components env_default) + 2)
   \<and> 50 \<notin> set (progress_values (fst (generate_map gui_default env_default)))"
proof -
  have s: "StatusSuccess ''Map generated in 1.5 seconds.'' \<in> set (fst (generate_map gui_default env_default))"
    by code_simp
  have n: "length (fst (mp_generate env_default)) = components env_default" by code_simp
  have c: "components env_default = 2" by code_simp
  have st: "0 < 100 div (int (components env_default) + 2)" by (simp add: c)
  note t = progress_reports_of_a_successful_run[OF s]
  have 1: "progress_values (fst (generate_map gui_default env_default)) = [0, 25, 75, 100]"
    using t n c by (simp add: upt_conv_Cons)
  have 2: "last (progress_values (fst (generate_map gui_default env_default))) \<le> 100"
    using t n by blast
  have "int (length (fst (mp_generate env_default))) * (100 div (int (components env_default) + 2))
          \<notin> set (progress_values (fst (generate_map gui_default env_default)))"
    using t st by blast
  then have 3: "50 \<notin> set (progress_values (fst (generate_map gui_default env_default)))"
    using n c by simp
  show ?thesis using 1 2 3 n st by blast
qed

text \<open>
  Claim C6: in every run of \<^verbatim>\<open>generate_map\<close> the percentages passed to the progress bar,
  from the first stage to the packing, are non-decreasing, and in a run that succeeds the
  last of them is their maximum.
\<close>

theorem progress_is_non_decreasing:
  "sorted (progress_values (fst (generate_map self env)))
   \<and> (\<forall>m. StatusSuccess m \<in> set (fst (generate_map self env)) \<longrightarrow>
         progress_values (fst (generate_map self env)) \<noteq> []
         \<and> last (progress_values (fst (generate_map self env)))
             = Max (set (progress_values (fst (generate_map self env)))))"
proof -
  let ?n = "length (fst (mp_generate env))"
  let ?step = "100 div (int (components env) + 2)"
  let ?pv = "progress_values (fst (generate_map self env))"
  let ?full = "map (\<lambda>i. int i * ?step) [0..<?n] @ [(int ?n + 1) * ?step, (int ?n + 2) * ?step]"
  have sf: "sorted ?full" using sorted_schedule[OF step_nonneg] .
  obtain k where k: "progress_values (fst (try_body self env (get_sesion_name self env))) = take k ?full"
    using try_body_progress(1)[of self env "get_sesion_name self env"] by blast
  have "sorted (take k ?full)" using sf by (rule sorted_wrt_take)
  then have 1: "sorted ?pv" using generate_map_progress[of self env] k by auto
  have 2: "\<forall>m. StatusSuccess m \<in> set (fst (generate_map self env)) \<longrightarrow>
         ?pv \<noteq> [] \<and> last ?pv = Max (set ?pv)"
  proof (intro allI impI)
    fix m assume m: "StatusSuccess m \<in> set (fst (generate_map self env))"
    have "?pv = ?full"
      using generate_map_success[OF m] try_body_progress(2)[of self env "get_sesion_name self env"]
      by simp
    then have ne: "?pv \<noteq> []" by simp
    show "?pv \<noteq> [] \<and> last ?pv = Max (set ?pv)"
      using ne sorted_last_Max[OF 1 ne] by simp
  qed
  show ?thesis using 1 2 by blast
qed

theorem progress_is_non_decreasing_witness:
  "sorted (progress_values (fst (generate_map gui_default env_default)))
   \<and> last (progress_values (fst (generate_map gui_default env_default)))
       = Max (set (progress_values (fst (generate_map gui_default env_default))))"
proof -
  have "StatusSuccess ''Map generated in 1.5 seconds.'' \<in> set (fst (generate_map gui_default env_default))"
    by code_simp
  then show ?thesis using progress_is_non_decreasing[of gui_default env_default] by blast
qed

section \<open>Admission\<close>

text \<open>
  Claim C7: on a public server the start action is offered if and only if the length of
  the queue is below the ceiling of 2. The code does otherwise: \<^verbatim>\<open>add_left_widgets\<close> binds
  \<^verbatim>\<open>enable_debug\<close> at line 320 only when the server is not public and reads it at line 321
  in either case, so on a public server it raises \<^verbatim>\<open>UnboundLocalError\<close> before it reaches
  the button of lines 396 to 405. Nothing is drawn and the start action is not offered,
  whatever the length of the queue.
\<close>

theorem start_action_not_offered_on_public_server:
  assumes "public self"
  shows "add_left_widgets self env rnd
           = ([], Raise (Exc UnboundLocalError
                          ''UnboundLocalError: cannot access local variable enable_debug''))"
  using assms by (simp add: add_left_widgets_def debug_logs_section_def bind_c_def)

text \<open>
  The failing input: a public server that is not the community server, with an empty
  queue, so that \<open>admit\<close> holds.
\<close>

theorem start_action_not_offered_witness:
  "public gui_default
   \<and> \<not> on_community_server render_click
   \<and> admit (queue_length render_click) QUEUE_LIMIT
   \<and> add_left_widgets gui_default env_default render_click
       = ([], Raise (Exc UnboundLocalError
                      ''UnboundLocalError: cannot access local variable enable_debug''))
   \<and> Button False \<notin> set (fst (add_left_widgets gui_default env_default render_click))"
proof -
  have p: "public gui_default" by code_simp
  have c: "\<not> on_community_server render_click \<and> admit (queue_length render_click) QUEUE_LIMIT"
    by code_simp
  show ?thesis
    using start_action_not_offered_on_public_server[OF p, of env_default render_click] p c
    by simp
qed

text \<open>
  Off the public server the sidebar goes on to the button and the download. The button
  section itself, were it reached on a public server, reads the length of the queue once,
  first, and draws the button enabled if and only if the server is not the community
  server and \<open>admit\<close> holds; \<^verbatim>\<open>generate_map\<close> never reads the length.
\<close>

lemma add_left_widgets_not_public:
  "\<not> public self \<Longrightarrow> add_left_widgets self env rnd = buttons_and_download self env rnd"
  by (simp add: add_left_widgets_def debug_logs_section_def bind_c_def case_prod_beta)

lemma button_section_admission:
  assumes "public self"
  shows "(Button False \<in> set (fst (generate_button_section self env rnd)))
           = (\<not> on_community_server rnd \<and> admit (queue_length rnd) QUEUE_LIMIT)
       \<and> QUEUE_LIMIT = 2
       \<and> (\<exists>rest. fst (generate_button_section self env rnd) = GetQueueLength # rest
                 \<and> GetQueueLength \<notin> set rest)
       \<and> GetQueueLength \<notin> set (fst (generate_map self env))"
proof -
  have g: "Button False \<notin> set (fst (generate_map self env))"
    "GetQueueLength \<notin> set (fst (generate_map self env))"
    using run_events_not_widgets[OF generate_map_events[of self env]] by simp_all
  have 1: "(Button False \<in> set (fst (generate_button_section self env rnd)))
           = (\<not> on_community_server rnd \<and> admit (queue_length rnd) QUEUE_LIMIT)"
    using assms g
    by (auto simp: generate_button_section_fst generate_button_disabled_def admit_def)
  have 3: "\<exists>rest. fst (generate_button_section self env rnd) = GetQueueLength # rest
                 \<and> GetQueueLength \<notin> set rest"
    using assms g by (auto simp: generate_button_section_fst)
  show ?thesis using 1 3 g(2) by (simp add: QUEUE_LIMIT_def)
qed

section \<open>The archive\<close>

text \<open>
  Claim C8: the deferred removal of the archive is requested only after the Download
  button has been drawn with it, never before, and the request does not block the caller.
  In the trace of lines 396 to 423 no request comes before the Download button, and
  every request is for a path whose Download button is in the trace. With the removal
  modelled from the specification, the request lets no time pass for the caller and
  deletes nothing yet; once the delay has passed the archive is gone.
\<close>

theorem removal_requested_after_download_button:
  "only_after is_download_button is_remove_with_delay (fst (buttons_and_download self env rnd))
   \<and> (\<forall>p. RemoveWithDelay p \<in> set (fst (buttons_and_download self env rnd)) \<longrightarrow>
         DownloadButton (last (split_on CHR ''/'' p)) \<in> set (fst (buttons_and_download self env rnd)))
   \<and> clock (artifacts_after delay (fst (buttons_and_download self env rnd)) a) = clock a
   \<and> files (artifacts_after delay (fst (buttons_and_download self env rnd)) a) = files a
   \<and> (\<forall>p. RemoveWithDelay p \<in> set (fst (buttons_and_download self env rnd)) \<longrightarrow>
         p \<notin> set (files (advance delay (artifacts_after delay (fst (buttons_and_download self env rnd)) a))))"
proof -
  let ?tr = "fst (buttons_and_download self env rnd)"
  obtain pre post where sh: "?tr = pre @ post"
    "list_all (\<lambda>ev. \<not> is_download_button ev \<and> \<not> is_remove_with_delay ev) pre"
    "post = [] \<or> (\<exists>p. post = [OpenFile p])
       \<or> (\<exists>p. post = [OpenFile p, DownloadButton (last (split_on CHR ''/'' p)),
                        RemoveWithDelay p, SetGenerated False])"
    using buttons_and_download_shape[of self env rnd] by blast
  have "only_after is_download_button is_remove_with_delay post"
    using sh(3) by (auto simp: is_download_button_def is_remove_with_delay_def)
  then have 1: "only_after is_download_button is_remove_with_delay ?tr"
    using sh(1,2) by (simp add: only_after_append_iff)
  have 2: "\<forall>p. RemoveWithDelay p \<in> set ?tr \<longrightarrow> DownloadButton (last (split_on CHR ''/'' p)) \<in> set ?tr"
    using sh(1,3) plain_no_remove[OF sh(2)] by auto
  have r: "clock (artifacts_after delay ?tr a) = clock a"
    "files (artifacts_after delay ?tr a) = files a"
    by (simp_all add: artifacts_after_clock artifacts_after_files)
  have 5: "\<forall>p. RemoveWithDelay p \<in> set ?tr \<longrightarrow>
         p \<notin> set (files (advance delay (artifacts_after delay ?tr a)))"
  proof (intro allI impI)
    fix p assume "RemoveWithDelay p \<in> set ?tr"
    then have "(p, clock a + delay) \<in> set (pending (artifacts_after delay ?tr a))"
      by (rule artifacts_after_pending)
    then show "p \<notin> set (files (advance delay (artifacts_after delay ?tr a)))"
      by (rule advance_deletes) (simp add: r(1))
  qed
  show ?thesis using 1 2 r(1,2) 5 by blast
qed

theorem removal_requested_after_download_button_witness:
  "only_after is_download_button is_remove_with_delay
        (fst (buttons_and_download gui_default env_default render_click))
   \<and> RemoveWithDelay ''archives/FS25_45_28571_20_23743_2025-01-01_12-00-00.zip''
        \<in> set (fst (buttons_and_download gui_default env_default render_click))
   \<and> DownloadButton ''FS25_45_28571_20_23743_2025-01-01_12-00-00.zip''
        \<in> set (fst (buttons_and_download gui_default env_default render_click))
   \<and> ''archives/FS25_45_28571_20_23743_2025-01-01_12-00-00.zip''
        \<notin> set (files (advance 5
              (artifacts_after 5 (fst (buttons_and_download gui_default env_default render_click))
                 \<lparr>clock = 0,
                  files = [''archives/FS25_45_28571_20_23743_2025-01-01_12-00-00.zip''],
                  pending = []\<rparr>)))"
proof -
  let ?p = "''archives/FS25_45_28571_20_23743_2025-01-01_12-00-00.zip''"
  let ?tr = "fst (buttons_and_download gui_default env_default render_click)"
  have b: "RemoveWithDelay ?p \<in> set ?tr" by code_simp
  have c: "last (split_on CHR ''/'' ?p) = ''FS25_45_28571_20_23743_2025-01-01_12-00-00.zip''"
    by code_simp
  note t = removal_requested_after_download_button[of gui_default env_default render_click 5
      "\<lparr>clock = 0, files = [?p], pending = []\<rparr>"]
  have o: "only_after is_download_button is_remove_with_delay ?tr" using t by blast
  have "DownloadButton (last (split_on CHR ''/'' ?p)) \<in> set ?tr" using t b by blast
  then have d: "DownloadButton ''FS25_45_28571_20_23743_2025-01-01_12-00-00.zip'' \<in> set ?tr"
    unfolding c .
  have f: "?p \<notin> set (files (advance 5 (artifacts_after 5 ?tr
                 \<lparr>clock = 0, files = [?p], pending = []\<rparr>)))"
    using t b by blast
  show ?thesis using o b d f by blast
qed

section \<open>The limits of the public server\<close>

text \<open>
  Claim C9: for every settings dictionary whose categories \<^verbatim>\<open>BackgroundSettings\<close> and
  \<^verbatim>\<open>TextureSettings\<close> are dictionaries, \<open>limit_on_public\<close> on a public server returns a
  dictionary with \<^verbatim>\<open>resize_factor\<close> 8 and \<^verbatim>\<open>dissolve\<close> false in them, every other field
  and every other category as submitted, under the same keys; off the public server it
  returns its argument. In every run of \<^verbatim>\<open>generate_map\<close> the settings passed to
  \<^verbatim>\<open>all_settings_from_json\<close> are what \<open>limit_on_public\<close> returns for the submitted
  ones, and the map job is not constructed before that call.
\<close>

theorem settings_are_limited_on_public:
  "(\<forall>kvs bg tx.
      map_of kvs ''BackgroundSettings'' = Some (JObj bg)
      \<and> map_of kvs ''TextureSettings'' = Some (JObj tx) \<longrightarrow>
      (\<exists>kvs'. limit_on_public True (JObj kvs) = Inr (JObj kvs')
         \<and> settings_field (JObj kvs') ''BackgroundSettings'' ''resize_factor'' = Some (JInt 8)
         \<and> settings_field (JObj kvs') ''TextureSettings'' ''dissolve'' = Some (JBool False)
         \<and> (\<forall>c f. (c, f) \<noteq> (''BackgroundSettings'', ''resize_factor'')
                  \<and> (c, f) \<noteq> (''TextureSettings'', ''dissolve'')
               \<longrightarrow> settings_field (JObj kvs') c f = settings_field (JObj kvs) c f)
         \<and> (\<forall>c. c \<noteq> ''BackgroundSettings'' \<and> c \<noteq> ''TextureSettings''
               \<longrightarrow> map_of kvs' c = map_of kvs c)
         \<and> map fst kvs' = map fst kvs))
   \<and> limit_on_public False j = Inr j
   \<and> (\<forall>l. AllSettingsFromJson l \<in> set (fst (generate_map self env)) \<longrightarrow>
        (\<exists>sub. submitted_settings self env = Some sub
           \<and> limit_on_public (public self) sub = Inr l))
   \<and> only_after is_all_settings_from_json is_map_ctor (fst (generate_map self env))"
proof -
  have 1: "\<exists>kvs'. limit_on_public True (JObj kvs) = Inr (JObj kvs')
         \<and> settings_field (JObj kvs') ''BackgroundSettings'' ''resize_factor'' = Some (JInt 8)
         \<and> settings_field (JObj kvs') ''TextureSettings'' ''dissolve'' = Some (JBool False)
         \<and> (\<forall>c f. (c, f) \<noteq> (''BackgroundSettings'', ''resize_factor'')
                  \<and> (c, f) \<noteq> (''TextureSettings'', ''dissolve'')
               \<longrightarrow> settings_field (JObj kvs') c f = settings_field (JObj kvs) c f)
         \<and> (\<forall>c. c \<noteq> ''BackgroundSettings'' \<and> c \<noteq> ''TextureSettings''
               \<longrightarrow> map_of kvs' c = map_of kvs c)
         \<and> map fst kvs' = map fst kvs"
    if b: "map_of kvs ''BackgroundSettings'' = Some (JObj bg)"
      and t: "map_of kvs ''TextureSettings'' = Some (JObj tx)" for kvs bg tx
  proof -
    let ?k1 = "dict_set kvs ''BackgroundSettings'' (JObj (dict_set bg ''resize_factor'' (JInt 8)))"
    let ?k2 = "dict_set ?k1 ''TextureSettings'' (JObj (dict_set tx ''dissolve'' (JBool False)))"
    have e: "limit_on_public True (JObj kvs) = Inr (JObj ?k2)"
      using limit_on_public_categories[OF b t] .
    have k: "map fst ?k2 = map fst kvs"
      using b t by (simp add: keys_dict_set map_of_dict_set)
    have f: "settings_field (JObj ?k2) c f
        = (if (c, f) = (''BackgroundSettings'', ''resize_factor'') then Some (JInt 8)
           else if (c, f) = (''TextureSettings'', ''dissolve'') then Some (JBool False)
           else settings_field (JObj kvs) c f)" for c f
      using b t by (simp add: settings_field_def map_of_dict_set)
    have m: "c \<noteq> ''BackgroundSettings'' \<and> c \<noteq> ''TextureSettings'' \<longrightarrow> map_of ?k2 c = map_of kvs c" for c
      by (simp add: map_of_dict_set)
    show ?thesis using e k f m by (intro exI[of _ ?k2]) simp
  qed
  have 2: "limit_on_public False j = Inr j" by (simp add: limit_on_public_def)
  show ?thesis using 1 2 generate_map_routing[of self env] by blast
qed

theorem settings_are_limited_on_public_witness:
  "settings_field (JObj [(''BackgroundSettings'', JObj [(''resize_factor'', JInt 8)]),
                        (''TextureSettings'', JObj [(''dissolve'', JBool False)])])
       ''BackgroundSettings'' ''resize_factor'' = Some (JInt 8)
   \<and> limit_on_public True (settings gui_default)
     = Inr (JObj [(''BackgroundSettings'', JObj [(''resize_factor'', JInt 8)]),
                  (''TextureSettings'', JObj [(''dissolve'', JBool False)])])
   \<and> AllSettingsFromJson (JObj [(''BackgroundSettings'', JObj [(''resize_factor'', JInt 8)]),
                                (''TextureSettings'', JObj [(''dissolve'', JBool False)])])
       \<in> set (fst (generate_map gui_default env_default))
   \<and> submitted_settings gui_default env_default = Some (settings gui_default)
   \<and> only_after is_all_settings_from_json is_map_ctor (fst (generate_map gui_default env_default))"
proof -
  let ?l = "JObj [(''BackgroundSettings'', JObj [(''resize_factor'', JInt 8)]),
                  (''TextureSettings'', JObj [(''dissolve'', JBool False)])]"
  let ?kvs = "[(''BackgroundSettings'', JObj [(''resize_factor'', JInt 2)]),
               (''TextureSettings'', JObj [(''dissolve'', JBool True)])]"
  have a: "AllSettingsFromJson ?l \<in> set (fst (generate_map gui_default env_default))"
    by code_simp
  have s: "submitted_settings gui_default env_default = Some (settings gui_default)"
    by code_simp
  have p: "public gui_default" by code_simp
  have k: "settings gui_default = JObj ?kvs" by code_simp
  have m: "map_of ?kvs ''BackgroundSettings'' = Some (JObj [(''resize_factor'', JInt 2)])
           \<and> map_of ?kvs ''TextureSettings'' = Some (JObj [(''dissolve'', JBool True)])"
    by simp
  note t = settings_are_limited_on_public[of JNull gui_default env_default]
  have "\<exists>kvs'. limit_on_public True (JObj ?kvs) = Inr (JObj kvs')
         \<and> settings_field (JObj kvs') ''BackgroundSettings'' ''resize_factor'' = Some (JInt 8)
         \<and> settings_field (JObj kvs') ''TextureSettings'' ''dissolve'' = Some (JBool False)
         \<and> (\<forall>c f. (c, f) \<noteq> (''BackgroundSettings'', ''resize_factor'')
                  \<and> (c, f) \<noteq> (''TextureSettings'', ''dissolve'')
               \<longrightarrow> settings_field (JObj kvs') c f = settings_field (JObj ?kvs) c f)
         \<and> (\<forall>c. c \<noteq> ''BackgroundSettings'' \<and> c \<noteq> ''TextureSettings''
               \<longrightarrow> map_of kvs' c = map_of ?kvs c)
         \<and> map fst kvs' = map fst ?kvs"
    using conjunct1[OF t, THEN spec, THEN spec, THEN spec, THEN mp, OF m] .
  then obtain kvs' where k': "limit_on_public True (JObj ?kvs) = Inr (JObj kvs')"
    "settings_field (JObj kvs') ''BackgroundSettings'' ''resize_factor'' = Some (JInt 8)"
    by (elim exE conjE)
  from t have r: "\<forall>l. AllSettingsFromJson l \<in> set (fst (generate_map gui_default env_default)) \<longrightarrow>
        (\<exists>sub. submitted_settings gui_default env_default = Some sub
           \<and> limit_on_public (public gui_default) sub = Inr l)"
    and o: "only_after is_all_settings_from_json is_map_ctor (fst (generate_map gui_default env_default))"
    by blast+
  from r a obtain sub where "submitted_settings gui_default env_default = Some sub"
    "limit_on_public (public gui_default) sub = Inr ?l" by blast
  then have e: "limit_on_public True (settings gui_default) = Inr ?l" using s p by simp
  then have "kvs' = [(''BackgroundSettings'', JObj [(''resize_factor'', JInt 8)]),
                    (''TextureSettings'', JObj [(''dissolve'', JBool False)])]"
    using k' k by simp
  then show ?thesis using a s o e k'(2) by simp
qed

end
